theory Spec2Isabelle
  imports Main "HOL-Library.Word"
begin

unbundle bit_operations_syntax

section \<open>The statistics counters of stats.c\<close>

text \<open>
  A counter is a C \<open>unsigned\<close>: 32 bits, arithmetic modulo \<open>2 ^ 32\<close>. A counter array
  \<open>unsigned counters[STATS_END]\<close> is a list of \<open>STATS_END\<close> words.
\<close>

type_synonym counter = "32 word"

text \<open>The constants of \<open>enum stats\<close> that stats.c names.\<close>

datatype stats =
    STATS_NONE | STATS_STDOUT | STATS_STATUS | STATS_ERROR | STATS_TOCACHE
  | STATS_PREPROCESSOR | STATS_COMPILER | STATS_MISSING | STATS_CACHEHIT_CPP
  | STATS_ARGS | STATS_LINK | STATS_NUMFILES | STATS_TOTALSIZE | STATS_MAXFILES
  | STATS_MAXSIZE | STATS_SOURCELANG | STATS_DEVICE | STATS_NOINPUT | STATS_MULTIPLE
  | STATS_CONFTEST | STATS_UNSUPPORTED | STATS_OUTSTDOUT | STATS_CACHEHIT_DIR
  | STATS_NOOUTPUT | STATS_EMPTYOUTPUT | STATS_BADEXTRAFILE

text \<open>
  The declaration of \<open>enum stats\<close> is in ccache.h, which is not among the sources. The
  numbering it gives is therefore a parameter of the model: \<open>STATS_END\<close>, the length of
  every counter array, and the array index of each named constant.
\<close>

record layout =
  STATS_END :: nat
  stat_index :: "stats \<Rightarrow> nat"

definition all_stats :: "stats list" where
  "all_stats =
    [STATS_NONE, STATS_STDOUT, STATS_STATUS, STATS_ERROR, STATS_TOCACHE,
     STATS_PREPROCESSOR, STATS_COMPILER, STATS_MISSING, STATS_CACHEHIT_CPP,
     STATS_ARGS, STATS_LINK, STATS_NUMFILES, STATS_TOTALSIZE, STATS_MAXFILES,
     STATS_MAXSIZE, STATS_SOURCELANG, STATS_DEVICE, STATS_NOINPUT, STATS_MULTIPLE,
     STATS_CONFTEST, STATS_UNSUPPORTED, STATS_OUTSTDOUT, STATS_CACHEHIT_DIR,
     STATS_NOOUTPUT, STATS_EMPTYOUTPUT, STATS_BADEXTRAFILE]"

text \<open>
  What an enum declaration ending in \<open>STATS_END\<close> guarantees: the named constants are
  pairwise different and all below \<open>STATS_END\<close>.
\<close>

definition layout_ok :: "layout \<Rightarrow> bool" where
  "layout_ok L \<longleftrightarrow>
     distinct (map (stat_index L) all_stats) \<and>
     list_all (\<lambda>s. stat_index L s < STATS_END L) all_stats"

text \<open>
  \<open>stats_read_fd\<close> reads a stats file into \<open>char buf[1024]\<close>. A line of a stats file is
  at most ten digits and a newline, so a whole file fits when \<open>11 * STATS_END < 1024\<close>.
\<close>

definition fits_buf :: "layout \<Rightarrow> bool" where
  "fits_buf L \<longleftrightarrow> 11 * STATS_END L < 1024"

text \<open>
  An instance for evaluation: twenty-six constants numbered in the order of
  \<open>all_stats\<close>, \<open>STATS_NONE = 0\<close> first, \<open>STATS_END = 26\<close>.
\<close>

definition seq_layout :: layout where
  "seq_layout =
     \<lparr> STATS_END = 26,
       stat_index = (\<lambda>s. case s of
           STATS_NONE \<Rightarrow> 0 | STATS_STDOUT \<Rightarrow> 1 | STATS_STATUS \<Rightarrow> 2 | STATS_ERROR \<Rightarrow> 3
         | STATS_TOCACHE \<Rightarrow> 4 | STATS_PREPROCESSOR \<Rightarrow> 5 | STATS_COMPILER \<Rightarrow> 6
         | STATS_MISSING \<Rightarrow> 7 | STATS_CACHEHIT_CPP \<Rightarrow> 8 | STATS_ARGS \<Rightarrow> 9
         | STATS_LINK \<Rightarrow> 10 | STATS_NUMFILES \<Rightarrow> 11 | STATS_TOTALSIZE \<Rightarrow> 12
         | STATS_MAXFILES \<Rightarrow> 13 | STATS_MAXSIZE \<Rightarrow> 14 | STATS_SOURCELANG \<Rightarrow> 15
         | STATS_DEVICE \<Rightarrow> 16 | STATS_NOINPUT \<Rightarrow> 17 | STATS_MULTIPLE \<Rightarrow> 18
         | STATS_CONFTEST \<Rightarrow> 19 | STATS_UNSUPPORTED \<Rightarrow> 20 | STATS_OUTSTDOUT \<Rightarrow> 21
         | STATS_CACHEHIT_DIR \<Rightarrow> 22 | STATS_NOOUTPUT \<Rightarrow> 23 | STATS_EMPTYOUTPUT \<Rightarrow> 24
         | STATS_BADEXTRAFILE \<Rightarrow> 25) \<rparr>"

text \<open>\<open>memset(counters, 0, sizeof(counters))\<close>\<close>

definition zero_counters :: "layout \<Rightarrow> counter list" where
  "zero_counters L = replicate (STATS_END L) 0"

section \<open>The text of a stats file\<close>

subsection \<open>\<open>fprintf(f, "%u\n", counters[i])\<close>\<close>

definition digit_char :: "nat \<Rightarrow> char" where
  "digit_char d = ''0123456789'' ! d"

text \<open>\<open>%u\<close>: the decimal digits, most significant first, no leading zero, \<open>0\<close> for zero.\<close>

function dec :: "nat \<Rightarrow> string" where
  "dec n = (if n < 10 then [digit_char n] else dec (n div 10) @ [digit_char (n mod 10)])"
  by pat_completeness auto
termination
  by (relation "measure id") auto

declare dec.simps [simp del]

definition stats_line :: "counter \<Rightarrow> string" where
  "stats_line c = dec (unat c) @ [CHR 0x0A]"

subsection \<open>\<open>strtol(p, &p2, 10)\<close>\<close>

text \<open>
  A C string is modelled by the characters before its terminating NUL, a pointer into
  it by the characters from the pointer on. \<open>long\<close> has 64 bits (the LP64 data model);
  out of range, \<open>strtol\<close> returns \<open>LONG_MAX\<close> or \<open>LONG_MIN\<close>.
\<close>

definition LONG_MAX :: int where
  "LONG_MAX = 2 ^ 63 - 1"

definition LONG_MIN :: int where
  "LONG_MIN = - (2 ^ 63)"

definition isspace :: "char \<Rightarrow> bool" where
  "isspace c \<longleftrightarrow> c \<in> set [CHR '' '', CHR 0x09, CHR 0x0A, CHR 0x0B, CHR 0x0C, CHR 0x0D]"

definition isdigit :: "char \<Rightarrow> bool" where
  "isdigit c \<longleftrightarrow> 48 \<le> (of_char c :: nat) \<and> (of_char c :: nat) \<le> 57"

definition digit_val :: "char \<Rightarrow> nat" where
  "digit_val c = of_char c - 48"

fun strtol_digits :: "nat \<Rightarrow> string \<Rightarrow> nat \<times> string" where
  "strtol_digits acc [] = (acc, [])"
| "strtol_digits acc (c # cs) =
     (if isdigit c then strtol_digits (acc * 10 + digit_val c) cs else (acc, c # cs))"

text \<open>
  The result is the value and the end pointer \<open>p2\<close>. With no digits to convert the value
  is 0 and \<open>p2\<close> is \<open>p\<close> itself.
\<close>

definition strtol :: "string \<Rightarrow> int \<times> string" where
  "strtol p =
     (let s = dropWhile isspace p;
          neg = (s \<noteq> [] \<and> hd s = CHR ''-'');
          t = (if s \<noteq> [] \<and> (hd s = CHR ''-'' \<or> hd s = CHR ''+'') then tl s else s)
      in if t \<noteq> [] \<and> isdigit (hd t)
         then (case strtol_digits 0 t of (n, p2) \<Rightarrow>
                 (if neg then max LONG_MIN (- int n) else min LONG_MAX (int n), p2))
         else (0, p))"

subsection \<open>\<open>parse_stats\<close>\<close>

text \<open>
  The loop \<open>for (i=0;i<STATS_END;i++)\<close> over the indices still to visit. \<open>p2\<close> points
  into the string \<open>p\<close> points into, so \<open>p2 == p\<close> is equality of the remaining lengths;
  \<open>strtol\<close> never leaves \<open>p2\<close> null. The sum \<open>counters[i] += strtol(...)\<close> is stored in
  an \<open>unsigned\<close>, that is, taken modulo \<open>2 ^ 32\<close>.
\<close>

fun parse_loop :: "counter list \<Rightarrow> string \<Rightarrow> nat list \<Rightarrow> counter list" where
  "parse_loop counters p [] = counters"
| "parse_loop counters p (i # is) =
     (case strtol p of (v, p2) \<Rightarrow>
        (let counters' = counters[i := counters ! i + word_of_int v]
         in if length p2 = length p then counters' else parse_loop counters' p2 is))"

definition parse_stats :: "layout \<Rightarrow> counter list \<Rightarrow> string \<Rightarrow> counter list" where
  "parse_stats L counters buf = parse_loop counters buf [0 ..< STATS_END L]"

section \<open>The table \<open>stats_info\<close>\<close>

definition FLAG_NOZERO :: nat where
  "FLAG_NOZERO = 1"

definition FLAG_ALWAYS :: nat where
  "FLAG_ALWAYS = 2"

datatype display_fn = Display_size

record info =
  stat :: stats
  message :: "string option"
  fn :: "display_fn option"
  flags :: nat

definition mk_info :: "stats \<Rightarrow> string option \<Rightarrow> display_fn option \<Rightarrow> nat \<Rightarrow> info" where
  "mk_info s m f g = \<lparr> stat = s, message = m, fn = f, flags = g \<rparr>"

text \<open>The fields in display order; the last entry, with the null message, ends the table.\<close>

definition stats_info :: "info list" where
  "stats_info =
    [mk_info STATS_CACHEHIT_DIR (Some ''cache hit (direct)             '') None FLAG_ALWAYS,
     mk_info STATS_CACHEHIT_CPP (Some ''cache hit (preprocessed)       '') None FLAG_ALWAYS,
     mk_info STATS_TOCACHE (Some ''cache miss                     '') None FLAG_ALWAYS,
     mk_info STATS_LINK (Some ''called for link                '') None 0,
     mk_info STATS_MULTIPLE (Some ''multiple source files          '') None 0,
     mk_info STATS_STDOUT (Some ''compiler produced stdout       '') None 0,
     mk_info STATS_NOOUTPUT (Some ''compiler produced no output    '') None 0,
     mk_info STATS_EMPTYOUTPUT (Some ''compiler produced empty output '') None 0,
     mk_info STATS_STATUS (Some ''compile failed                 '') None 0,
     mk_info STATS_ERROR (Some ''ccache internal error          '') None 0,
     mk_info STATS_PREPROCESSOR (Some ''preprocessor error             '') None 0,
     mk_info STATS_COMPILER (Some ''couldn't find the compiler     '') None 0,
     mk_info STATS_MISSING (Some ''cache file missing             '') None 0,
     mk_info STATS_ARGS (Some ''bad compiler arguments         '') None 0,
     mk_info STATS_SOURCELANG (Some ''unsupported source language    '') None 0,
     mk_info STATS_CONFTEST (Some ''autoconf compile/link          '') None 0,
     mk_info STATS_UNSUPPORTED (Some ''unsupported compiler option    '') None 0,
     mk_info STATS_OUTSTDOUT (Some ''output to stdout               '') None 0,
     mk_info STATS_DEVICE (Some ''output to a non-regular file   '') None 0,
     mk_info STATS_NOINPUT (Some ''no input file                  '') None 0,
     mk_info STATS_BADEXTRAFILE (Some ''error hashing extra file       '') None 0,
     mk_info STATS_NUMFILES (Some ''files in cache                 '') None
       (FLAG_NOZERO OR FLAG_ALWAYS),
     mk_info STATS_TOTALSIZE (Some ''cache size                     '') (Some Display_size)
       (FLAG_NOZERO OR FLAG_ALWAYS),
     mk_info STATS_MAXFILES (Some ''max files                      '') None FLAG_NOZERO,
     mk_info STATS_MAXSIZE (Some ''max cache size                 '') (Some Display_size)
       FLAG_NOZERO,
     mk_info STATS_NONE None None 0]"

section \<open>Files, the process and its environment\<close>

text \<open>
  What changes while stats.c runs: the regular files of the file system (path to
  content), the two variables \<open>stats_file\<close> (null is \<open>None\<close>) and \<open>counter_updates\<close>,
  the lines given to \<open>cc_log\<close>, and the calls of \<open>cleanup_dir\<close> with their arguments.
  \<open>cleanup_dir\<close> is an external collaborator: the model records the call and nothing of
  what the collaborator then does.
\<close>

record world =
  files :: "string \<rightharpoonup> string"
  stats_file :: "string option"
  counter_updates :: "counter list"
  cc_log :: "string list"
  cleanup_calls :: "(string \<times> counter \<times> counter) list"

text \<open>
  What stats.c reads from outside and does not change: the environment variable
  \<open>CCACHE_NOSTATS\<close>, the variables \<open>cache_dir\<close> and \<open>lock_staleness_limit\<close>, the
  outcome of every call whose result the code inspects (\<open>lockfile_acquire\<close>,
  \<open>create_dir\<close>, \<open>open\<close>, \<open>read\<close>, \<open>fopen\<close>, \<open>fprintf\<close>), and the helpers of other
  files (\<open>tmp_string\<close>, \<open>hash_from_int(getpid())\<close>, \<open>dirname\<close>, \<open>safe_open\<close>).

  \<open>fclose\<close> is the one call whose result the code does not inspect and whose failure
  changes a file: \<open>fprintf\<close> puts its line into the buffer of the stream, and the
  buffer is written when the stream is closed, so a write that fails (disk full) fails
  in \<open>fclose\<close>. \<open>fclose_fails_after\<close> is \<open>None\<close> where \<open>fclose\<close> writes the whole
  buffer and succeeds, and \<open>Some n\<close> where it fails after \<open>n\<close> bytes of the buffer have
  reached the file. The other calls whose result the code does not inspect
  (\<open>unlink\<close>, \<open>close\<close>, \<open>lockfile_release\<close>, and \<open>create_dir\<close> in \<open>stats_flush\<close>
  and \<open>stats_set_sizes\<close>) succeed; directories are not part of the model.
\<close>

record env =
  getenv_NOSTATS :: bool
  cache_dir :: "string option"
  lock_staleness_limit :: nat
  lockfile_acquire :: "string \<Rightarrow> nat \<Rightarrow> bool"
  create_dir :: "string \<Rightarrow> int"
  open_denied :: "string \<Rightarrow> bool"
  read_error :: "string \<Rightarrow> bool"
  fopen_ok :: "string \<Rightarrow> bool"
  fprintf_ok :: "string \<Rightarrow> nat \<Rightarrow> bool"
  fclose_fails_after :: "string \<Rightarrow> nat option"
  tmp_string :: string
  hash_getpid :: nat
  dirname :: "string \<Rightarrow> string"
  safe_open :: "(string \<rightharpoonup> string) \<Rightarrow> string \<Rightarrow> string option \<times> (string \<rightharpoonup> string)"

text \<open>
  Modelled from the spec: \<open>fatal\<close>, \<open>cc_log\<close> and \<open>format\<close> are in util.c, which is
  not among the sources. By the spec a fatal failure aborts the invocation with a
  diagnostic: the model ends with the diagnostic and the world as it then is. \<open>cc_log\<close>
  adds a line to the log, and \<open>format\<close> builds the string its \<open>printf\<close> format
  describes. Passing a null \<open>cache_dir\<close> to \<open>format("%s...")\<close> is undefined
  behaviour, a second way for the model to end.
\<close>

datatype error = Fatal string | Null_cache_dir

type_synonym 'a result = "(error \<times> world) + 'a"

text \<open>\<open>%x\<close> and \<open>%1x\<close> of a value below 16: one lower-case hexadecimal digit.\<close>

definition hex_digit :: "nat \<Rightarrow> char" where
  "hex_digit n = ''0123456789abcdef'' ! n"

text \<open>\<open>format("%s/%1x/stats", cache_dir, dir)\<close> and \<open>format("%s/stats", cache_dir)\<close>\<close>

definition shard_dir :: "string \<Rightarrow> nat \<Rightarrow> string" where
  "shard_dir cd dir = cd @ ''/'' @ [hex_digit dir]"

definition shard_file :: "string \<Rightarrow> nat \<Rightarrow> string" where
  "shard_file cd dir = shard_dir cd dir @ ''/stats''"

definition top_file :: "string \<Rightarrow> string" where
  "top_file cd = cd @ ''/stats''"

text \<open>
  \<open>open(path, O_RDONLY|O_BINARY)\<close>: the descriptor is modelled by the path it reads,
  \<open>None\<close> is \<open>-1\<close>.
\<close>

definition open_rdonly :: "env \<Rightarrow> world \<Rightarrow> string \<Rightarrow> string option" where
  "open_rdonly E w path =
     (if files w path = None \<or> open_denied E path then None else Some path)"

text \<open>\<open>read(fd, buf, n)\<close> at offset 0: the number of bytes, or \<open>-1\<close>, and the bytes.\<close>

definition read_fd :: "env \<Rightarrow> world \<Rightarrow> string \<Rightarrow> nat \<Rightarrow> int \<times> string" where
  "read_fd E w fd n =
     (case files w fd of
        None \<Rightarrow> (- 1, [])
      | Some content \<Rightarrow>
          if read_error E fd then (- 1, [])
          else (int (length (take n content)), take n content))"

definition unlink :: "string \<Rightarrow> world \<Rightarrow> world" where
  "unlink path w = w\<lparr>files := (files w)(path := None)\<rparr>"

text \<open>
  Modelled from the spec: \<open>x_rename\<close> is in util.c, which is not among the sources. The
  spec has the temporary file atomically renamed over the target path.
\<close>

definition x_rename :: "string \<Rightarrow> string \<Rightarrow> world \<Rightarrow> world" where
  "x_rename old new w =
     (if old = new then w
      else w\<lparr>files := ((files w)(new := files w old))(old := None)\<rparr>)"

section \<open>The functions of stats.c\<close>

subsection \<open>\<open>write_stats\<close>\<close>

text \<open>
  The loop of \<open>fprintf\<close> calls over the indices still to write, with the text put
  into the stream so far: \<open>Inr\<close> the whole text, or \<open>Inl\<close> the text before the call
  that returned a negative value.
\<close>

fun write_loop :: "env \<Rightarrow> string \<Rightarrow> counter list \<Rightarrow> nat list \<Rightarrow> string \<Rightarrow> string + string" where
  "write_loop E tmp counters [] out = Inr out"
| "write_loop E tmp counters (i # is) out =
     (if fprintf_ok E tmp i
      then write_loop E tmp counters is (out @ stats_line (counters ! i))
      else Inl out)"

text \<open>\<open>format("%s.tmp.%s", path, tmp_string())\<close>\<close>

definition tmp_name :: "env \<Rightarrow> string \<Rightarrow> string" where
  "tmp_name E path = path @ ''.tmp.'' @ tmp_string E"

text \<open>
  What the file holds once the stream is closed, by \<open>fclose(f)\<close> or, after \<open>fatal\<close>,
  by the end of the process: the text put into the stream, or only its first \<open>n\<close>
  bytes where the write fails after \<open>n\<close> bytes.
\<close>

definition fclose :: "env \<Rightarrow> string \<Rightarrow> string \<Rightarrow> string" where
  "fclose E tmp out = (case fclose_fails_after E tmp of None \<Rightarrow> out | Some n \<Rightarrow> take n out)"

text \<open>
  \<open>write_stats\<close> does not look at what \<open>fclose\<close> returns: whatever the temporary
  file then holds is renamed over \<open>path\<close>.
\<close>

definition write_stats :: "layout \<Rightarrow> env \<Rightarrow> string \<Rightarrow> counter list \<Rightarrow> world \<Rightarrow> world result" where
  "write_stats L E path counters w =
     (let tmp_file = tmp_name E path
      in if \<not> fopen_ok E tmp_file
         then Inr (w\<lparr>cc_log := cc_log w @ [''Failed to open '' @ tmp_file]\<rparr>)
         else (case write_loop E tmp_file counters [0 ..< STATS_END L] [] of
                 Inl out \<Rightarrow>
                   Inl (Fatal (''Failed to write to '' @ tmp_file),
                        w\<lparr>files := (files w)(tmp_file \<mapsto> fclose E tmp_file out)\<rparr>)
               | Inr out \<Rightarrow>
                   Inr (x_rename tmp_file path
                          (w\<lparr>files := (files w)(tmp_file \<mapsto> fclose E tmp_file out)\<rparr>))))"

subsection \<open>\<open>stats_default\<close>, \<open>stats_read_fd\<close>, \<open>stats_read\<close>\<close>

definition DEFAULT_MAXSIZE :: nat where
  "DEFAULT_MAXSIZE = 1024 * 1024"

definition stats_default :: "layout \<Rightarrow> counter list \<Rightarrow> counter list" where
  "stats_default L counters =
     counters[stat_index L STATS_MAXSIZE :=
                counters ! stat_index L STATS_MAXSIZE + of_nat (DEFAULT_MAXSIZE div 16)]"

text \<open>\<open>buf[len] = 0\<close> ends the C string after the bytes read, or at a NUL byte among them.\<close>

definition stats_read_fd :: "layout \<Rightarrow> env \<Rightarrow> world \<Rightarrow> string \<Rightarrow> counter list \<Rightarrow> counter list" where
  "stats_read_fd L E w fd counters =
     (case read_fd E w fd 1023 of (len, buf) \<Rightarrow>
        if len \<le> 0 then stats_default L counters
        else parse_stats L counters (takeWhile (\<lambda>c. c \<noteq> CHR 0x00) buf))"

definition stats_read :: "layout \<Rightarrow> env \<Rightarrow> world \<Rightarrow> string \<Rightarrow> counter list \<Rightarrow> counter list" where
  "stats_read L E w path counters =
     (case open_rdonly E w path of
        None \<Rightarrow> stats_default L counters
      | Some fd \<Rightarrow> stats_read_fd L E w fd counters)"

subsection \<open>\<open>stats_update_size\<close>, \<open>stats_update\<close>, \<open>stats_get_pending\<close>\<close>

definition stats_update_size :: "layout \<Rightarrow> stats \<Rightarrow> 64 word \<Rightarrow> counter \<Rightarrow> world \<Rightarrow> world" where
  "stats_update_size L st sz nfiles w =
     (let u0 = counter_updates w;
          u1 = (if stat_index L st \<noteq> stat_index L STATS_NONE
                then u0[stat_index L st := u0 ! stat_index L st + 1] else u0);
          u2 = u1[stat_index L STATS_NUMFILES := u1 ! stat_index L STATS_NUMFILES + nfiles];
          u3 = u2[stat_index L STATS_TOTALSIZE := u2 ! stat_index L STATS_TOTALSIZE + ucast sz]
      in w\<lparr>counter_updates := u3\<rparr>)"

definition stats_update :: "layout \<Rightarrow> stats \<Rightarrow> world \<Rightarrow> world" where
  "stats_update L st w = stats_update_size L st 0 0 w"

definition stats_get_pending :: "layout \<Rightarrow> stats \<Rightarrow> world \<Rightarrow> counter" where
  "stats_get_pending L st w = counter_updates w ! stat_index L st"

subsection \<open>\<open>stats_flush\<close>\<close>

text \<open>The first loop: is some pending update greater than zero?\<close>

definition should_flush :: "layout \<Rightarrow> world \<Rightarrow> bool" where
  "should_flush L w = list_ex (\<lambda>i. 0 < counter_updates w ! i) [0 ..< STATS_END L]"

text \<open>The loop \<open>counters[i] += counter_updates[i]\<close>.\<close>

definition add_updates :: "layout \<Rightarrow> counter list \<Rightarrow> counter list \<Rightarrow> counter list" where
  "add_updates L counters updates =
     foldl (\<lambda>c i. c[i := c ! i + updates ! i]) counters [0 ..< STATS_END L]"

text \<open>
  The stats file to use, with the world after \<open>stats_file\<close> has been set: a null
  \<open>stats_file\<close> is set to one of the sixteen shard files, chosen by the process id, when
  \<open>cache_dir\<close> is not null (the result of \<open>create_dir(stats_dir)\<close> is not inspected).
\<close>

definition choose_stats_file :: "env \<Rightarrow> world \<Rightarrow> (string \<times> world) option" where
  "choose_stats_file E w =
     (case stats_file w of
        Some sf \<Rightarrow> Some (sf, w)
      | None \<Rightarrow>
          (case cache_dir E of
             None \<Rightarrow> None
           | Some cd \<Rightarrow>
               (let stats_dir = cd @ ''/'' @ [hex_digit (hash_getpid E mod 16)];
                    sf = stats_dir @ ''/stats''
                in Some (sf, w\<lparr>stats_file := Some sf\<rparr>))))"

text \<open>The array \<open>counters\<close> after the stats file has been read and the updates added.\<close>

definition merged_counters :: "layout \<Rightarrow> env \<Rightarrow> world \<Rightarrow> string \<Rightarrow> counter list" where
  "merged_counters L E w sf =
     add_updates L (stats_read L E w sf (zero_counters L)) (counter_updates w)"

definition need_cleanup :: "layout \<Rightarrow> counter list \<Rightarrow> bool" where
  "need_cleanup L counters \<longleftrightarrow>
     (counters ! stat_index L STATS_MAXFILES \<noteq> 0 \<and>
      counters ! stat_index L STATS_NUMFILES > counters ! stat_index L STATS_MAXFILES) \<or>
     (counters ! stat_index L STATS_MAXSIZE \<noteq> 0 \<and>
      counters ! stat_index L STATS_TOTALSIZE > counters ! stat_index L STATS_MAXSIZE)"

text \<open>
  Modelled from the spec: \<open>cleanup_dir\<close> is in cleanup.c, which is not among the
  sources. The spec keeps the cleanup engine outside as a collaborator that is invoked
  with a directory and the two maxima; the model records the invocation.
\<close>

definition cleanup_dir :: "string \<Rightarrow> counter \<Rightarrow> counter \<Rightarrow> world \<Rightarrow> world" where
  "cleanup_dir dir maxfiles maxsize w =
     w\<lparr>cleanup_calls := cleanup_calls w @ [(dir, maxfiles, maxsize)]\<rparr>"

definition stats_flush :: "layout \<Rightarrow> env \<Rightarrow> world \<Rightarrow> world result" where
  "stats_flush L E w =
     (if getenv_NOSTATS E then Inr w
      else if \<not> should_flush L w then Inr w
      else (case choose_stats_file E w of
              None \<Rightarrow> Inr w
            | Some (sf, w1) \<Rightarrow>
                if \<not> lockfile_acquire E sf (lock_staleness_limit E) then Inr w1
                else (let counters = merged_counters L E w1 sf
                      in case write_stats L E sf counters w1 of
                           Inl e \<Rightarrow> Inl e
                         | Inr w2 \<Rightarrow>
                             if need_cleanup L counters
                             then Inr (cleanup_dir (dirname E sf)
                                         (counters ! stat_index L STATS_MAXFILES)
                                         (counters ! stat_index L STATS_MAXSIZE) w2)
                             else Inr w2)))"

subsection \<open>\<open>stats_summary\<close>\<close>

text \<open>The loop \<open>for (dir=-1;dir<=0xF;dir++)\<close> over the directories still to read.\<close>

fun summary_loop :: "layout \<Rightarrow> env \<Rightarrow> world \<Rightarrow> string \<Rightarrow> int list \<Rightarrow> counter list \<Rightarrow> counter list" where
  "summary_loop L E w cd [] counters = counters"
| "summary_loop L E w cd (dir # dirs) counters =
     (let fname = (if dir = - 1 then top_file cd else shard_file cd (nat dir));
          c1 = stats_read L E w fname counters;
          c2 = (if dir = - 1 then c1[stat_index L STATS_MAXSIZE := 0] else c1)
      in summary_loop L E w cd dirs c2)"

definition summary_counters :: "layout \<Rightarrow> env \<Rightarrow> world \<Rightarrow> string \<Rightarrow> counter list" where
  "summary_counters L E w cd = summary_loop L E w cd [- 1 .. 15] (zero_counters L)"

text \<open>
  What is printed: the line naming the cache directory, then one line for each table
  entry that is shown, with its message and the counter, printed with \<open>%8u\<close> or handed
  to the entry's display function.
\<close>

datatype out_line = Directory_line string | Plain_line string counter | Fn_line string display_fn counter

fun display_loop :: "layout \<Rightarrow> info list \<Rightarrow> counter list \<Rightarrow> out_line list" where
  "display_loop L [] counters = []"
| "display_loop L (e # es) counters =
     (case message e of
        None \<Rightarrow> []
      | Some m \<Rightarrow>
          if counters ! stat_index L (stat e) = 0 \<and> flags e AND FLAG_ALWAYS = 0
          then display_loop L es counters
          else (case fn e of
                  Some f \<Rightarrow> Fn_line m f (counters ! stat_index L (stat e))
                | None \<Rightarrow> Plain_line m (counters ! stat_index L (stat e)))
               # display_loop L es counters)"

definition stats_summary :: "layout \<Rightarrow> env \<Rightarrow> world \<Rightarrow> error + out_line list" where
  "stats_summary L E w =
     (case cache_dir E of
        None \<Rightarrow> Inl Null_cache_dir
      | Some cd \<Rightarrow>
          Inr (Directory_line cd # display_loop L stats_info (summary_counters L E w cd)))"

subsection \<open>\<open>stats_zero\<close>\<close>

text \<open>The loop over \<open>stats_info\<close> that zeroes the counters not flagged \<open>FLAG_NOZERO\<close>.\<close>

fun zero_entries :: "layout \<Rightarrow> info list \<Rightarrow> counter list \<Rightarrow> counter list" where
  "zero_entries L [] counters = counters"
| "zero_entries L (e # es) counters =
     (if message e = None then counters
      else zero_entries L es
             (if flags e AND FLAG_NOZERO = 0
              then counters[stat_index L (stat e) := 0] else counters))"

fun zero_loop :: "layout \<Rightarrow> env \<Rightarrow> string \<Rightarrow> nat list \<Rightarrow> world \<Rightarrow> world result" where
  "zero_loop L E cd [] w = Inr w"
| "zero_loop L E cd (dir # dirs) w =
     (let fname = shard_file cd dir
      in if \<not> lockfile_acquire E fname (lock_staleness_limit E)
         then zero_loop L E cd dirs w
         else (let counters = stats_read L E w fname (zero_counters L);
                   counters' = zero_entries L stats_info counters
               in case write_stats L E fname counters' w of
                    Inl e \<Rightarrow> Inl e
                  | Inr w' \<Rightarrow> zero_loop L E cd dirs w'))"

definition stats_zero :: "layout \<Rightarrow> env \<Rightarrow> world \<Rightarrow> world result" where
  "stats_zero L E w =
     (case cache_dir E of
        None \<Rightarrow> Inl (Null_cache_dir, w)
      | Some cd \<Rightarrow> zero_loop L E cd [0 ..< 16] (unlink (top_file cd) w))"

subsection \<open>\<open>stats_set_limits\<close>\<close>

text \<open>Division of C integers truncates towards zero.\<close>

definition c_div :: "int \<Rightarrow> int \<Rightarrow> int" where
  "c_div a b = sgn a * sgn b * (\<bar>a\<bar> div \<bar>b\<bar>)"

text \<open>
  The two assignments \<open>counters[STATS_MAXFILES] = maxfiles\<close> and
  \<open>counters[STATS_MAXSIZE] = maxsize\<close>, each under its test: an assignment of a
  \<open>long\<close> to a counter keeps its value modulo \<open>2 ^ 32\<close>. Then the loop over the
  sixteen directories, with the limits already divided; the function result is the
  \<open>int\<close> returned.
\<close>

definition apply_limits :: "layout \<Rightarrow> int \<Rightarrow> int \<Rightarrow> counter list \<Rightarrow> counter list" where
  "apply_limits L maxfiles maxsize c0 =
     (let c1 = (if maxfiles \<noteq> - 1
                then c0[stat_index L STATS_MAXFILES := word_of_int maxfiles] else c0);
          c2 = (if maxsize \<noteq> - 1
                then c1[stat_index L STATS_MAXSIZE := word_of_int maxsize] else c1)
      in c2)"

fun limits_loop :: "layout \<Rightarrow> env \<Rightarrow> string \<Rightarrow> int \<Rightarrow> int \<Rightarrow> nat list \<Rightarrow> world \<Rightarrow> (int \<times> world) result" where
  "limits_loop L E cd maxfiles maxsize [] w = Inr (0, w)"
| "limits_loop L E cd maxfiles maxsize (dir # dirs) w =
     (let cdir = shard_dir cd dir
      in if create_dir E cdir \<noteq> 0 then Inr (1, w)
         else (let fname = cdir @ ''/stats''
               in if \<not> lockfile_acquire E fname (lock_staleness_limit E)
                  then limits_loop L E cd maxfiles maxsize dirs w
                  else (let c0 = stats_read L E w fname (zero_counters L);
                            c2 = apply_limits L maxfiles maxsize c0
                        in case write_stats L E fname c2 w of
                             Inl e \<Rightarrow> Inl e
                           | Inr w' \<Rightarrow> limits_loop L E cd maxfiles maxsize dirs w')))"

definition stats_set_limits :: "layout \<Rightarrow> env \<Rightarrow> int \<Rightarrow> int \<Rightarrow> world \<Rightarrow> (int \<times> world) result" where
  "stats_set_limits L E maxfiles maxsize w =
     (let maxfiles' = (if maxfiles \<noteq> - 1 then c_div maxfiles 16 else maxfiles);
          maxsize' = (if maxsize \<noteq> - 1 then c_div maxsize 16 else maxsize)
      in case cache_dir E of
           None \<Rightarrow> Inl (Null_cache_dir, w)
         | Some cd \<Rightarrow>
             if create_dir E cd \<noteq> 0 then Inr (1, w)
             else limits_loop L E cd maxfiles' maxsize' [0 ..< 16] w)"

subsection \<open>\<open>stats_set_sizes\<close>\<close>

text \<open>
  \<open>safe_open\<close> is a helper of another file that may create the file it opens: it
  returns the descriptor and the files as they are afterwards. The sizes are \<open>size_t\<close>
  values, of 64 bits, cut to 32 by the assignments.
\<close>

definition stats_set_sizes :: "layout \<Rightarrow> env \<Rightarrow> string \<Rightarrow> 64 word \<Rightarrow> 64 word \<Rightarrow> world \<Rightarrow> world result" where
  "stats_set_sizes L E dir num_files total_size w =
     (let statsfile = dir @ ''/stats''
      in if \<not> lockfile_acquire E statsfile (lock_staleness_limit E) then Inr w
         else (case safe_open E (files w) statsfile of (fd, fs') \<Rightarrow>
                 (let w1 = w\<lparr>files := fs'\<rparr>;
                      c0 = (case fd of
                              None \<Rightarrow> stats_default L (zero_counters L)
                            | Some d \<Rightarrow> stats_read_fd L E w1 d (zero_counters L));
                      c1 = c0[stat_index L STATS_NUMFILES := ucast num_files];
                      c2 = c1[stat_index L STATS_TOTALSIZE := ucast total_size]
                  in write_stats L E statsfile c2 w1)))"

section \<open>Auxiliary notions for stating the properties\<close>

text \<open>The text \<open>write_stats\<close> produces when every \<open>fprintf\<close> succeeds: one line per counter.\<close>

definition stats_text :: "counter list \<Rightarrow> string" where
  "stats_text counters = concat (map stats_line counters)"

text \<open>The first \<open>k\<close> complete lines of a text (all of them when there are fewer).\<close>

fun first_lines :: "nat \<Rightarrow> string \<Rightarrow> string" where
  "first_lines 0 s = []"
| "first_lines (Suc k) s =
     (if CHR 0x0A \<in> set s
      then takeWhile (\<lambda>c. c \<noteq> CHR 0x0A) s @ [CHR 0x0A]
           @ first_lines k (tl (dropWhile (\<lambda>c. c \<noteq> CHR 0x0A) s))
      else [])"

text \<open>
  A text on which \<open>strtol\<close> converts nothing: after its leading white space and one
  optional sign there is no digit.
\<close>

definition unparsable :: "string \<Rightarrow> bool" where
  "unparsable g \<longleftrightarrow>
     (let s = dropWhile isspace g;
          t = (if s \<noteq> [] \<and> (hd s = CHR ''-'' \<or> hd s = CHR ''+'') then tl s else s)
      in \<not> (t \<noteq> [] \<and> isdigit (hd t)))"

text \<open>The counters flagged \<open>FLAG_NOZERO\<close> in \<open>stats_info\<close>.\<close>

definition nozero_stats :: "stats list" where
  "nozero_stats = [STATS_NUMFILES, STATS_TOTALSIZE, STATS_MAXFILES, STATS_MAXSIZE]"

text \<open>
  The counters the loop of \<open>stats_zero\<close> sets to zero: those of the entries before the
  end of the table that do not carry \<open>FLAG_NOZERO\<close>.
\<close>

definition zeroed_stats :: "info list \<Rightarrow> stats list" where
  "zeroed_stats es =
     map stat (filter (\<lambda>e. flags e AND FLAG_NOZERO = 0) (takeWhile (\<lambda>e. message e \<noteq> None) es))"

text \<open>The sum over the sixteen shards of the counter with index \<open>i\<close>, each shard read on its own.\<close>

definition shards_total :: "layout \<Rightarrow> env \<Rightarrow> world \<Rightarrow> string \<Rightarrow> nat \<Rightarrow> counter" where
  "shards_total L E w cd i =
     sum_list (map (\<lambda>d. stats_read L E w (shard_file cd d) (zero_counters L) ! i) [0 ..< 16])"

text \<open>
  The files when a function has returned or, after \<open>fatal\<close>, when the process has
  ended.
\<close>

definition final_world :: "world result \<Rightarrow> world" where
  "final_world r = (case r of Inl (e, w) \<Rightarrow> w | Inr w \<Rightarrow> w)"

definition files_after :: "world result \<Rightarrow> string \<Rightarrow> string option" where
  "files_after r path = files (final_world r) path"

text \<open>The same for the result of \<open>stats_set_limits\<close>, which also holds the \<open>int\<close> returned.\<close>

definition limits_world :: "(int \<times> world) result \<Rightarrow> world" where
  "limits_world r = (case r of Inl (e, w) \<Rightarrow> w | Inr (n, w) \<Rightarrow> w)"

section \<open>Instances for evaluation\<close>

text \<open>An environment in which every call succeeds.\<close>

definition ok_env :: env where
  "ok_env =
     \<lparr> getenv_NOSTATS = False,
       cache_dir = Some ''/c'',
       lock_staleness_limit = 2,
       lockfile_acquire = (\<lambda>p n. True),
       create_dir = (\<lambda>p. 0),
       open_denied = (\<lambda>p. False),
       read_error = (\<lambda>p. False),
       fopen_ok = (\<lambda>p. True),
       fprintf_ok = (\<lambda>p i. True),
       fclose_fails_after = (\<lambda>p. None),
       tmp_string = ''host.1'',
       hash_getpid = 3,
       dirname = (\<lambda>p. take (length p - 6) p),
       safe_open = (\<lambda>fs p. (if fs p = None then None else Some p, fs)) \<rparr>"

text \<open>The environment in which the lock of shard 0, and only that lock, is not acquired.\<close>

definition lock0_env :: env where
  "lock0_env = ok_env\<lparr>lockfile_acquire := (\<lambda>p n. p \<noteq> ''/c/0/stats'')\<rparr>"

text \<open>The environment in which no temporary file can be opened.\<close>

definition no_fopen_env :: env where
  "no_fopen_env = ok_env\<lparr>fopen_ok := (\<lambda>p. False)\<rparr>"

text \<open>
  The environment in which every \<open>fprintf\<close> succeeds and every \<open>fclose\<close> fails with
  nothing written, as on a full disk.
\<close>

definition fclose_fail_env :: env where
  "fclose_fail_env = ok_env\<lparr>fclose_fails_after := (\<lambda>p. Some 0)\<rparr>"

text \<open>The environment in which the second \<open>fprintf\<close> to any file fails.\<close>

definition fprintf_fail_env :: env where
  "fprintf_fail_env = ok_env\<lparr>fprintf_ok := (\<lambda>p i. i \<noteq> 1)\<rparr>"

text \<open>A layout with three counters, for texts short enough to write out.\<close>

definition small_layout :: layout where
  "small_layout = \<lparr> STATS_END = 3, stat_index = (\<lambda>s. 0) \<rparr>"

text \<open>
  A process with pending updates (one cache miss, one file, 70000 KiB) whose stats file
  does not exist yet.
\<close>

definition flush_world :: world where
  "flush_world =
     \<lparr> files = Map.empty,
       stats_file = Some ''/c/3/stats'',
       counter_updates =
         [0, 0, 0, 0, 1, 0, 0, 0, 0, 0, 0, 1, 70000, 0, 0, 0, 0, 0, 0, 0, 0, 0, 0, 0, 0, 0],
       cc_log = [],
       cleanup_calls = [] \<rparr>"

text \<open>A cache whose shard 0 holds five files of 300 KiB under limits of 10 files and 100 KiB.\<close>

definition shard0_counters :: "counter list" where
  "shard0_counters =
     [0, 0, 0, 0, 9, 0, 0, 0, 2, 0, 0, 5, 300, 10, 100, 0, 0, 0, 0, 0, 0, 0, 3, 0, 0, 0]"

definition shard0_world :: world where
  "shard0_world =
     \<lparr> files = [''/c/0/stats'' \<mapsto> stats_text shard0_counters, ''/c/stats'' \<mapsto> ''1\<newline>''],
       stats_file = None,
       counter_updates = zero_counters seq_layout,
       cc_log = [],
       cleanup_calls = [] \<rparr>"

text \<open>A cache with a top-level stats file and no shard stats file.\<close>

definition top_world :: world where
  "top_world =
     \<lparr> files = [''/c/stats'' \<mapsto> stats_text shard0_counters],
       stats_file = None,
       counter_updates = zero_counters seq_layout,
       cc_log = [],
       cleanup_calls = [] \<rparr>"

text \<open>A cache whose shard 0 has an empty stats file.\<close>

definition empty_file_world :: world where
  "empty_file_world =
     \<lparr> files = [''/c/0/stats'' \<mapsto> []],
       stats_file = None,
       counter_updates = zero_counters seq_layout,
       cc_log = [],
       cleanup_calls = [] \<rparr>"

text \<open>A file of two lines.\<close>

definition two_line_world :: world where
  "two_line_world =
     \<lparr> files = [''f'' \<mapsto> ''7\<newline>42\<newline>''],
       stats_file = None,
       counter_updates = zero_counters small_layout,
       cc_log = [],
       cleanup_calls = [] \<rparr>"

section \<open>The stats file text: writing and parsing\<close>

lemma layout_ok_seq: "layout_ok seq_layout"
  by (simp add: layout_ok_def seq_layout_def all_stats_def)

lemma below_ten: "d < 10 \<Longrightarrow> d \<in> set [0, 1, 2, 3, 4, 5, 6, 7, 8, 9 :: nat]"
  by auto

lemma isdigit_digit_char: "d < 10 \<Longrightarrow> isdigit (digit_char d)"
  using below_ten [of d] by (auto simp: isdigit_def digit_char_def)

lemma digit_val_digit_char: "d < 10 \<Longrightarrow> digit_val (digit_char d) = d"
  using below_ten [of d] by (auto simp: digit_val_def digit_char_def)

lemma dec_digits: "list_all isdigit (dec n)"
proof (induction n rule: dec.induct)
  case (1 n)
  show ?case
  proof (cases "n < 10")
    case True
    then show ?thesis by (subst dec.simps) (simp add: isdigit_digit_char)
  next
    case False
    with 1 show ?thesis by (subst dec.simps) (simp add: isdigit_digit_char)
  qed
qed

lemma dec_nonempty: "dec n \<noteq> []"
  by (subst dec.simps) simp

lemma strtol_digits_append:
  "list_all isdigit ds \<Longrightarrow> \<not> (r \<noteq> [] \<and> isdigit (hd r)) \<Longrightarrow>
   strtol_digits acc (ds @ r) = (foldl (\<lambda>a c. a * 10 + digit_val c) acc ds, r)"
proof (induction ds arbitrary: acc)
  case Nil
  then show ?case by (cases r) auto
next
  case (Cons d ds)
  then show ?case by simp
qed

lemma foldl_dec: "foldl (\<lambda>a c. a * 10 + digit_val c) 0 (dec n) = n"
proof (induction n rule: dec.induct)
  case (1 n)
  show ?case
  proof (cases "n < 10")
    case True
    then show ?thesis by (subst dec.simps) (simp add: digit_val_digit_char)
  next
    case False
    with 1 show ?thesis by (subst dec.simps) (simp add: digit_val_digit_char)
  qed
qed

lemma isspace_not_digit: "isspace c \<Longrightarrow> \<not> isdigit c"
  by (auto simp: isspace_def isdigit_def)

lemma digit_not_space: "isdigit c \<Longrightarrow> \<not> isspace c \<and> c \<noteq> CHR ''-'' \<and> c \<noteq> CHR ''+'' \<and> c \<noteq> CHR 0x0A \<and> c \<noteq> CHR 0x00"
  by (auto simp: isspace_def isdigit_def)

lemma hd_dec_digit: "isdigit (hd (dec n))"
  using dec_digits [of n] dec_nonempty [of n] by (cases "dec n") auto

lemma strtol_dec:
  assumes ws: "list_all isspace ws" and r: "\<not> (r \<noteq> [] \<and> isdigit (hd r))"
  shows "strtol (ws @ dec n @ r) = (min LONG_MAX (int n), r)"
proof -
  obtain d ds where d: "dec n = d # ds" using dec_nonempty [of n] by (cases "dec n") auto
  have dd: "isdigit d" using hd_dec_digit [of n] d by simp
  have dw: "dropWhile isspace (ws @ dec n @ r) = dec n @ r"
    using ws dd d digit_not_space [of d] by (induction ws) auto
  have "strtol_digits 0 (dec n @ r) = (n, r)"
    using strtol_digits_append [OF dec_digits r, where acc = 0 and n1 = n] by (simp add: foldl_dec)
  moreover have "strtol (ws @ dec n @ r) =
      (let s = dec n @ r;
           neg = (s \<noteq> [] \<and> hd s = CHR ''-'');
           t = (if s \<noteq> [] \<and> (hd s = CHR ''-'' \<or> hd s = CHR ''+'') then tl s else s)
       in if t \<noteq> [] \<and> isdigit (hd t)
          then (case strtol_digits 0 t of (n, p2) \<Rightarrow>
                  (if neg then max LONG_MIN (- int n) else min LONG_MAX (int n), p2))
          else (0, ws @ dec n @ r))"
    unfolding strtol_def dw ..
  ultimately show ?thesis
    using dd digit_not_space [of d] by (simp add: Let_def d)
qed

lemma strtol_blank:
  assumes ws: "list_all isspace ws"
  shows "strtol ws = (0, ws)"
proof -
  have "dropWhile isspace ws = []" using ws by (induction ws) auto
  then show ?thesis by (simp add: strtol_def)
qed

lemma strtol_unparsable:
  assumes ws: "list_all isspace ws" and g: "unparsable g"
  shows "strtol (ws @ g) = (0, ws @ g)"
proof -
  have dw: "dropWhile isspace (ws @ g) = dropWhile isspace g"
    using ws by (induction ws) auto
  define s where "s = dropWhile isspace g"
  define t where "t = (if s \<noteq> [] \<and> (hd s = CHR ''-'' \<or> hd s = CHR ''+'') then tl s else s)"
  have nt: "\<not> (t \<noteq> [] \<and> isdigit (hd t))"
    using g unfolding unparsable_def Let_def s_def t_def .
  have "strtol (ws @ g) =
      (if t \<noteq> [] \<and> isdigit (hd t)
       then (case strtol_digits 0 t of (n, p2) \<Rightarrow>
               (if s \<noteq> [] \<and> hd s = CHR ''-'' then max LONG_MIN (- int n)
                else min LONG_MAX (int n), p2))
       else (0, ws @ g))"
    unfolding strtol_def dw Let_def s_def t_def ..
  then show ?thesis by (simp only: nt if_False)
qed

lemma stats_text_Cons: "stats_text (v # vs) = dec (unat v) @ CHR 0x0A # stats_text vs"
  by (simp add: stats_text_def stats_line_def)

lemma stats_text_Nil: "stats_text [] = []"
  by (simp add: stats_text_def)

lemma counter_fits_long: "min LONG_MAX (uint (v :: counter)) = uint v"
proof -
  have "uint v < 2 ^ 32" using uint_lt2p [of v] by simp
  then show ?thesis by (simp add: LONG_MAX_def)
qed

lemma parse_loop_text:
  assumes "list_all isspace ws" and "unparsable g"
    and "length pre = i" and "i + length vs \<le> n"
  shows "parse_loop (pre @ replicate (n - i) 0) (ws @ stats_text vs @ g) [i ..< n]
         = pre @ vs @ replicate (n - i - length vs) 0"
  using assms
proof (induction vs arbitrary: ws pre i)
  case Nil
  show ?case
  proof (cases "i < n")
    case False
    then show ?thesis by simp
  next
    case True
    then have up: "[i ..< n] = i # [Suc i ..< n]" by (simp add: upt_conv_Cons)
    have st: "strtol (ws @ g) = (0, ws @ g)"
      using strtol_unparsable Nil.prems(1,2) by blast
    show ?thesis
      by (simp add: up stats_text_Nil st)
  qed
next
  case (Cons v vs)
  then have lt: "i < n" by simp
  then have up: "[i ..< n] = i # [Suc i ..< n]" by (simp add: upt_conv_Cons)
  let ?r = "CHR 0x0A # stats_text vs @ g"
  have r: "\<not> (?r \<noteq> [] \<and> isdigit (hd ?r))" by (simp add: isdigit_def)
  have st: "strtol (ws @ stats_text (v # vs) @ g) = (uint v, ?r)"
    using strtol_dec [OF Cons.prems(1) r, of "unat v"]
    by (simp add: stats_text_Cons counter_fits_long)
  have len: "length ?r \<noteq> length (ws @ stats_text (v # vs) @ g)"
    using dec_nonempty [of "unat v"] by (simp add: stats_text_Cons)
  have upd: "(pre @ replicate (n - i) 0)[i := (pre @ replicate (n - i) 0) ! i + v]
             = (pre @ [v]) @ replicate (n - Suc i) 0"
    using lt Cons.prems(3) by (cases "n - i") (auto simp: list_update_append nth_append Suc_diff_Suc)
  have ih: "parse_loop ((pre @ [v]) @ replicate (n - Suc i) 0) ([CHR 0x0A] @ stats_text vs @ g) [Suc i ..< n]
            = (pre @ [v]) @ vs @ replicate (n - Suc i - length vs) 0"
    using Cons.prems by (intro Cons.IH) (auto simp: isspace_def)
  show ?case
    using len ih by (simp add: up st upd del: replicate_Suc)
qed

lemma parse_stats_text:
  assumes "length vs \<le> STATS_END L" and "unparsable g"
  shows "parse_stats L (zero_counters L) (stats_text vs @ g)
         = vs @ replicate (STATS_END L - length vs) 0"
  using parse_loop_text [of "[]" g "[]" 0 vs "STATS_END L"] assms
  by (simp add: parse_stats_def zero_counters_def)

lemma write_loop_Inr:
  "write_loop E tmp counters is out = Inr txt \<Longrightarrow>
   txt = out @ concat (map (\<lambda>i. stats_line (counters ! i)) is)"
proof (induction "is" arbitrary: out)
  case Nil
  then show ?case by simp
next
  case (Cons i "is")
  from Cons.prems have ok: "fprintf_ok E tmp i"
    and rest: "write_loop E tmp counters is (out @ stats_line (counters ! i)) = Inr txt"
    by (auto split: if_splits)
  from Cons.IH [OF rest] show ?case by simp
qed

lemma write_loop_ok:
  "\<forall>i \<in> set is. fprintf_ok E tmp i \<Longrightarrow>
   write_loop E tmp counters is out = Inr (out @ concat (map (\<lambda>i. stats_line (counters ! i)) is))"
  by (induction "is" arbitrary: out) auto

lemma write_loop_fail:
  "\<not> (\<forall>i \<in> set is. fprintf_ok E tmp i) \<Longrightarrow> \<exists>part. write_loop E tmp counters is out = Inl part"
  by (induction "is" arbitrary: out) auto

lemma text_of_indices:
  "length counters = n \<Longrightarrow> concat (map (\<lambda>i. stats_line (counters ! i)) [0 ..< n]) = stats_text counters"
proof -
  assume "length counters = n"
  then have "map (\<lambda>i. stats_line (counters ! i)) [0 ..< n] = map stats_line counters"
    by (intro nth_equalityI) auto
  then show ?thesis by (simp add: stats_text_def)
qed

lemma write_loop_text:
  assumes "length counters = STATS_END L"
    and "write_loop E tmp counters [0 ..< STATS_END L] [] = Inr txt"
  shows "txt = stats_text counters"
  using write_loop_Inr [OF assms(2)] text_of_indices [OF assms(1)] by simp

lemma no_newline_dec: "CHR 0x0A \<notin> set (dec n)"
  using dec_digits [of n] by (auto simp: list_all_iff isdigit_def)

lemma first_lines_text: "first_lines k (stats_text vs) = stats_text (take k vs)"
proof (induction k arbitrary: vs)
  case 0
  show ?case by (simp add: stats_text_Nil)
next
  case (Suc k)
  show ?case
  proof (cases vs)
    case Nil
    then show ?thesis by (simp add: stats_text_Nil)
  next
    case (Cons v vs')
    have tw: "takeWhile (\<lambda>c. c \<noteq> CHR 0x0A) (dec (unat v) @ CHR 0x0A # stats_text vs') = dec (unat v)"
      using no_newline_dec [of "unat v"] by (subst takeWhile_append2) auto
    have dw: "dropWhile (\<lambda>c. c \<noteq> CHR 0x0A) (dec (unat v) @ CHR 0x0A # stats_text vs') = CHR 0x0A # stats_text vs'"
      using no_newline_dec [of "unat v"] by (subst dropWhile_append2) auto
    show ?thesis
      using Suc.IH [of vs'] by (simp add: Cons stats_text_Cons tw dw)
  qed
qed

subsection \<open>Round trip\<close>

text \<open>
  C3. For every counter array \<open>v\<close> of \<open>STATS_END\<close> counters: when the \<open>fprintf\<close> loop
  of \<open>write_stats\<close> writes \<open>v\<close> completely, \<open>parse_stats\<close> on the text it wrote and a
  zeroed counter array gives back \<open>v\<close>.
\<close>

theorem parse_write_roundtrip:
  assumes "length v = STATS_END L"
    and "write_loop E tmp v [0 ..< STATS_END L] [] = Inr text"
  shows "parse_stats L (zero_counters L) text = v"
proof -
  have "unparsable []" by (simp add: unparsable_def)
  from parse_stats_text [of v L "[]", OF _ this] write_loop_text [OF assms] assms(1)
  show ?thesis by simp
qed

theorem parse_write_roundtrip_witness:
  "length [7, 42, 4294967295 :: counter] = STATS_END small_layout
   \<and> write_loop ok_env ''t'' [7, 42, 4294967295] [0 ..< STATS_END small_layout] []
       = Inr ''7\<newline>42\<newline>4294967295\<newline>''
   \<and> parse_stats small_layout (zero_counters small_layout) ''7\<newline>42\<newline>4294967295\<newline>''
       = [7, 42, 4294967295]"
proof -
  have len: "length [7, 42, 4294967295 :: counter] = STATS_END small_layout"
    by (simp add: small_layout_def)
  have wr: "write_loop ok_env ''t'' [7, 42, 4294967295] [0 ..< STATS_END small_layout] []
            = Inr ''7\<newline>42\<newline>4294967295\<newline>''"
    by (simp add: small_layout_def ok_env_def upt_rec stats_line_def dec.simps digit_char_def)
  from len wr parse_write_roundtrip [OF len wr] show ?thesis by blast
qed

section \<open>Writing and reading a stats file\<close>

lemma tmp_name_neq: "tmp_name E path \<noteq> path"
proof
  assume "tmp_name E path = path"
  then have "length (tmp_name E path) = length path" by simp
  then show False by (simp add: tmp_name_def)
qed

lemma write_stats_fopen_fail:
  assumes "\<not> fopen_ok E (tmp_name E path)"
  shows "write_stats L E path counters w
         = Inr (w\<lparr>cc_log := cc_log w @ [''Failed to open '' @ tmp_name E path]\<rparr>)"
  using assms by (simp add: write_stats_def Let_def)

lemma write_stats_ok:
  assumes "fopen_ok E (tmp_name E path)"
    and "(\<forall>i < STATS_END L. fprintf_ok E (tmp_name E path) i)
          \<and> fclose_fails_after E (tmp_name E path) = None"
    and "length counters = STATS_END L"
  shows "write_stats L E path counters w
         = Inr (w\<lparr>files := ((files w)(path \<mapsto> stats_text counters))(tmp_name E path := None)\<rparr>)"
proof -
  have wl: "write_loop E (tmp_name E path) counters [0 ..< STATS_END L] [] = Inr (stats_text counters)"
    using write_loop_ok [of "[0 ..< STATS_END L]" E "tmp_name E path" counters "[]"] assms(2)
      text_of_indices [OF assms(3)] by simp
  have fe: "((files w)(tmp_name E path \<mapsto> t))(path := Some t, tmp_name E path := None)
            = ((files w)(path \<mapsto> t))(tmp_name E path := None)" for t
    using tmp_name_neq [of E path] by (auto simp: fun_eq_iff)
  have fc: "fclose E (tmp_name E path) t = t" for t
    using assms(2) by (simp add: fclose_def)
  show ?thesis
    using assms(1) tmp_name_neq [of E path] wl
    by (simp add: write_stats_def Let_def x_rename_def fe fc)
qed

text \<open>
  The slip: every \<open>fprintf\<close> succeeds, the write fails in \<open>fclose\<close>, and
  \<open>write_stats\<close> returns as if nothing had happened, with what did reach the temporary
  file, a part of the text, renamed over the stats file.
\<close>

lemma write_stats_fclose_fail:
  assumes "fopen_ok E (tmp_name E path)"
    and "\<forall>i < STATS_END L. fprintf_ok E (tmp_name E path) i"
    and "fclose_fails_after E (tmp_name E path) = Some n"
    and "length counters = STATS_END L"
  shows "write_stats L E path counters w
         = Inr (w\<lparr>files := ((files w)(path \<mapsto> take n (stats_text counters)))
                                (tmp_name E path := None)\<rparr>)"
proof -
  have wl: "write_loop E (tmp_name E path) counters [0 ..< STATS_END L] [] = Inr (stats_text counters)"
    using write_loop_ok [of "[0 ..< STATS_END L]" E "tmp_name E path" counters "[]"] assms(2)
      text_of_indices [OF assms(4)] by simp
  have fe: "((files w)(tmp_name E path \<mapsto> t))(path := Some t, tmp_name E path := None)
            = ((files w)(path \<mapsto> t))(tmp_name E path := None)" for t
    using tmp_name_neq [of E path] by (auto simp: fun_eq_iff)
  have fc: "fclose E (tmp_name E path) t = take n t" for t
    using assms(3) by (simp add: fclose_def)
  show ?thesis
    using assms(1) tmp_name_neq [of E path] wl
    by (simp add: write_stats_def Let_def x_rename_def fe fc)
qed

lemma write_stats_fatal:
  assumes "fopen_ok E (tmp_name E path)"
    and "\<not> (\<forall>i < STATS_END L. fprintf_ok E (tmp_name E path) i)"
  shows "\<exists>part. write_stats L E path counters w
         = Inl (Fatal (''Failed to write to '' @ tmp_name E path),
                w\<lparr>files := (files w)(tmp_name E path \<mapsto> part)\<rparr>)"
proof -
  obtain part where "write_loop E (tmp_name E path) counters [0 ..< STATS_END L] [] = Inl part"
  proof -
    have "\<not> (\<forall>i \<in> set [0 ..< STATS_END L]. fprintf_ok E (tmp_name E path) i)"
      using assms(2) by auto
    from write_loop_fail [OF this] show ?thesis using that by blast
  qed
  then have "write_stats L E path counters w
         = Inl (Fatal (''Failed to write to '' @ tmp_name E path),
                w\<lparr>files := (files w)(tmp_name E path \<mapsto> fclose E (tmp_name E path) part)\<rparr>)"
    using assms(1) by (simp add: write_stats_def Let_def)
  then show ?thesis ..
qed

lemma stats_read_default:
  assumes "files w path = None \<or> open_denied E path \<or> read_error E path \<or> files w path = Some []"
  shows "stats_read L E w path counters = stats_default L counters"
  using assms
  by (auto simp: stats_read_def open_rdonly_def stats_read_fd_def read_fd_def split: option.splits)

lemma stats_read_files_cong:
  "files w1 path = files w path \<Longrightarrow> stats_read L E w1 path c = stats_read L E w path c"
  by (simp add: stats_read_def open_rdonly_def stats_read_fd_def read_fd_def)

lemma dec_length: "n < 10 ^ k \<Longrightarrow> 0 < k \<Longrightarrow> length (dec n) \<le> k"
proof (induction n arbitrary: k rule: dec.induct)
  case (1 n)
  show ?case
  proof (cases "n < 10")
    case True
    then show ?thesis using 1(3) by (subst dec.simps) simp
  next
    case False
    obtain j where k: "k = Suc j" using 1(3) by (cases k) auto
    have "j \<noteq> 0" using False 1(2) k by (cases j) auto
    moreover have "n div 10 < 10 ^ j" using 1(2) k by (simp add: less_mult_imp_div_less mult.commute)
    ultimately have "length (dec (n div 10)) \<le> j" using 1(1) [OF False, of j] by simp
    then show ?thesis using False k by (subst dec.simps) simp
  qed
qed

lemma stats_line_length: "length (stats_line c) \<le> 11"
proof -
  have "unat c < 2 ^ 32" using unsigned_less [of c] by simp
  then have "unat c < 10 ^ 10" by simp
  from dec_length [OF this] show ?thesis by (simp add: stats_line_def)
qed

lemma stats_text_length: "length (stats_text vs) \<le> 11 * length vs"
proof (induction vs)
  case Nil
  show ?case by (simp add: stats_text_def)
next
  case (Cons v vs)
  then show ?case using stats_line_length [of v] by (simp add: stats_text_def)
qed

lemma stats_text_no_nul: "CHR 0x00 \<notin> set (stats_text vs)"
proof -
  have "CHR 0x00 \<notin> set (dec n)" for n
    using dec_digits [of n] by (auto simp: list_all_iff isdigit_def)
  then show ?thesis by (auto simp: stats_text_def stats_line_def)
qed

lemma stats_read_text:
  assumes "files w path = Some (stats_text vs)"
    and "\<not> open_denied E path" and "\<not> read_error E path"
    and "vs \<noteq> []" and "length vs \<le> STATS_END L" and "fits_buf L"
  shows "stats_read L E w path (zero_counters L) = vs @ replicate (STATS_END L - length vs) 0"
proof -
  have "length (stats_text vs) \<le> 1023"
    using stats_text_length [of vs] assms(5,6) by (simp add: fits_buf_def)
  then have tk: "take 1023 (stats_text vs) = stats_text vs" by simp
  have ne: "stats_text vs \<noteq> []"
    using assms(4) by (cases vs) (simp_all add: stats_text_Cons)
  have tw: "takeWhile (\<lambda>c. c \<noteq> CHR 0x00) (stats_text vs) = stats_text vs"
    using stats_text_no_nul [of vs] by auto
  have "unparsable []" by (simp add: unparsable_def)
  from parse_stats_text [OF assms(5) this] show ?thesis
    using assms(1,2,3) ne
    by (simp add: stats_read_def open_rdonly_def stats_read_fd_def read_fd_def tk tw)
qed

section \<open>Flushing the pending updates\<close>

lemma parse_loop_length: "length (parse_loop c p is) = length c"
  by (induction "is" arbitrary: c p) (auto simp: Let_def split: prod.splits)

lemma stats_default_length: "length (stats_default L c) = length c"
  by (simp add: stats_default_def)

lemma stats_read_length: "length (stats_read L E w path c) = length c"
  by (simp add: stats_read_def stats_read_fd_def parse_stats_def parse_loop_length
      stats_default_length split: option.splits prod.splits)

lemma add_loop_nth:
  "length c = length u \<Longrightarrow> n \<le> length c \<Longrightarrow>
   foldl (\<lambda>c i. c[i := c ! i + u ! i]) c [0 ..< n]
     = map2 (+) (take n c) (take n u) @ drop n c"
proof (induction n)
  case 0
  show ?case by simp
next
  case (Suc n)
  then have n: "n < length c" "n < length u" by simp_all
  have "foldl (\<lambda>c i. c[i := c ! i + u ! i]) c [0 ..< Suc n]
        = (map2 (+) (take n c) (take n u) @ drop n c)[n := (map2 (+) (take n c) (take n u) @ drop n c) ! n + u ! n]"
    using Suc by simp
  also have "\<dots> = map2 (+) (take n c) (take n u) @ (drop n c)[0 := c ! n + u ! n]"
    using n by (simp add: list_update_append nth_append)
  also have "(drop n c)[0 := c ! n + u ! n] = (c ! n + u ! n) # drop (Suc n) c"
    using n by (simp add: Cons_nth_drop_Suc [symmetric])
  also have "map2 (+) (take n c) (take n u) @ (c ! n + u ! n) # drop (Suc n) c
             = map2 (+) (take (Suc n) c) (take (Suc n) u) @ drop (Suc n) c"
    using n by (simp add: take_Suc_conv_app_nth)
  finally show ?case .
qed

lemma add_updates_map2:
  "length c = STATS_END L \<Longrightarrow> length u = STATS_END L \<Longrightarrow> add_updates L c u = map2 (+) c u"
  using add_loop_nth [of c u "STATS_END L"] by (simp add: add_updates_def)

lemma zero_counters_length: "length (zero_counters L) = STATS_END L"
  by (simp add: zero_counters_def)

lemma merged_counters_eq:
  "length (counter_updates w) = STATS_END L \<Longrightarrow>
   merged_counters L E w sf = map2 (+) (stats_read L E w sf (zero_counters L)) (counter_updates w)"
  by (simp add: merged_counters_def add_updates_map2 stats_read_length zero_counters_length)

lemma choose_stats_file_props:
  assumes "choose_stats_file E w = Some (sf, w1)"
  shows "stats_file w1 = Some sf" and "files w1 = files w"
    and "counter_updates w1 = counter_updates w" and "cleanup_calls w1 = cleanup_calls w"
    and "cc_log w1 = cc_log w"
  using assms by (auto simp: choose_stats_file_def Let_def split: option.splits)

lemma choose_stats_file_again:
  "stats_file w = Some sf \<Longrightarrow> choose_stats_file E w = Some (sf, w)"
  by (simp add: choose_stats_file_def)

text \<open>The result of a flush that gets as far as merging.\<close>

lemma stats_flush_merge:
  assumes "\<not> getenv_NOSTATS E" and "should_flush L w"
    and "choose_stats_file E w = Some (sf, w1)"
    and "lockfile_acquire E sf (lock_staleness_limit E)"
  shows "stats_flush L E w =
     (case write_stats L E sf (merged_counters L E w1 sf) w1 of
        Inl e \<Rightarrow> Inl e
      | Inr w2 \<Rightarrow>
          Inr (if need_cleanup L (merged_counters L E w1 sf)
               then cleanup_dir (dirname E sf)
                      (merged_counters L E w1 sf ! stat_index L STATS_MAXFILES)
                      (merged_counters L E w1 sf ! stat_index L STATS_MAXSIZE) w2
               else w2))"
  using assms by (simp add: stats_flush_def Let_def split: sum.splits)

lemma write_stats_cleanup_calls:
  "write_stats L E path c w = Inr w' \<Longrightarrow> cleanup_calls w' = cleanup_calls w"
  by (auto simp: write_stats_def Let_def x_rename_def split: if_splits sum.splits)

lemma write_stats_counter_updates:
  "write_stats L E path c w = Inr w' \<Longrightarrow> counter_updates w' = counter_updates w \<and> stats_file w' = stats_file w"
  by (auto simp: write_stats_def Let_def x_rename_def split: if_splits sum.splits)

text \<open>
  C1. Take a flush that gets as far as merging (flushing is not switched off, some
  update is pending, a stats file is known, the lock is acquired) and returns. With
  \<open>merged\<close> the counters after the pending updates were added to the counters read,
  the flush calls \<open>cleanup_dir\<close> exactly once, on the directory of the stats file and
  with the merged max-files and max-size counters, if the merged max-files counter is
  not zero and the merged file count exceeds it, or the merged max-size counter is not
  zero and the merged total size exceeds it; otherwise it does not call it at all. A
  maximum that is zero therefore never triggers the call.
\<close>

theorem flush_cleanup_iff:
  assumes "\<not> getenv_NOSTATS E" and "should_flush L w"
    and "choose_stats_file E w = Some (sf, w1)"
    and "lockfile_acquire E sf (lock_staleness_limit E)"
    and "stats_flush L E w = Inr w'"
    and "merged = merged_counters L E w1 sf"
  shows "cleanup_calls w' =
           cleanup_calls w @
           (if (merged ! stat_index L STATS_MAXFILES \<noteq> 0 \<and>
                merged ! stat_index L STATS_NUMFILES > merged ! stat_index L STATS_MAXFILES) \<or>
               (merged ! stat_index L STATS_MAXSIZE \<noteq> 0 \<and>
                merged ! stat_index L STATS_TOTALSIZE > merged ! stat_index L STATS_MAXSIZE)
            then [(dirname E sf, merged ! stat_index L STATS_MAXFILES,
                   merged ! stat_index L STATS_MAXSIZE)]
            else [])"
proof -
  from stats_flush_merge [OF assms(1-4)] assms(5)
  obtain w2 where w2: "write_stats L E sf merged w1 = Inr w2"
    and w': "w' = (if need_cleanup L merged
               then cleanup_dir (dirname E sf)
                      (merged ! stat_index L STATS_MAXFILES)
                      (merged ! stat_index L STATS_MAXSIZE) w2
               else w2)"
    by (auto simp: assms(6) split: sum.splits)
  have "cleanup_calls w2 = cleanup_calls w"
    using write_stats_cleanup_calls [OF w2] choose_stats_file_props(4) [OF assms(3)] by simp
  then show ?thesis
    by (simp add: w' need_cleanup_def cleanup_dir_def)
qed

lemma merged_counters_length:
  "length (counter_updates w) = STATS_END L \<Longrightarrow> length (merged_counters L E w sf) = STATS_END L"
  by (simp add: merged_counters_eq stats_read_length zero_counters_length)

lemma stats_flush_ok:
  assumes "\<not> getenv_NOSTATS E" and "should_flush L w"
    and "choose_stats_file E w = Some (sf, w1)"
    and "lockfile_acquire E sf (lock_staleness_limit E)"
    and "fopen_ok E (tmp_name E sf)"
    and "(\<forall>i < STATS_END L. fprintf_ok E (tmp_name E sf) i)
          \<and> fclose_fails_after E (tmp_name E sf) = None"
    and "length (counter_updates w) = STATS_END L"
  shows "\<exists>w'. stats_flush L E w = Inr w'
           \<and> files w' = ((files w)(sf \<mapsto> stats_text (merged_counters L E w1 sf)))(tmp_name E sf := None)
           \<and> counter_updates w' = counter_updates w
           \<and> stats_file w' = Some sf"
proof -
  note props = choose_stats_file_props [OF assms(3)]
  have len: "length (merged_counters L E w1 sf) = STATS_END L"
    using merged_counters_length [of w1 L E sf] assms(7) props(3) by simp
  from write_stats_ok [OF assms(5,6) len, of w1] stats_flush_merge [OF assms(1-4)]
  show ?thesis
    by (simp add: props cleanup_dir_def)
qed

lemma merged_counters_files_cong:
  "files w1 sf = files w sf \<Longrightarrow> counter_updates w1 = counter_updates w \<Longrightarrow>
   merged_counters L E w1 sf = merged_counters L E w sf"
  by (simp add: merged_counters_def stats_read_files_cong [of w1 sf w])

text \<open>
  C10. \<open>stats_flush\<close> leaves \<open>counter_updates\<close> as it is. So when a process with
  pending updates \<open>u\<close> flushes twice, and each time the lock is acquired and the file
  written (the temporary file is opened, and no \<open>fprintf\<close> or \<open>fclose\<close> fails), the
  second flush adds \<open>u\<close> again: with \<open>c0\<close> the counters read at the first flush, the
  stats file holds \<open>c0 + u\<close> after the first flush and \<open>c0 + u + u\<close> after the
  second.
\<close>

theorem flush_twice_adds_twice:
  assumes "fits_buf L" and "0 < STATS_END L"
    and "length (counter_updates w) = STATS_END L"
    and "\<not> getenv_NOSTATS E" and "should_flush L w"
    and "choose_stats_file E w = Some (sf, w1)"
    and "lockfile_acquire E sf (lock_staleness_limit E)"
    and "fopen_ok E (tmp_name E sf)"
    and "(\<forall>i < STATS_END L. fprintf_ok E (tmp_name E sf) i)
          \<and> fclose_fails_after E (tmp_name E sf) = None"
    and "\<not> open_denied E sf" and "\<not> read_error E sf"
    and "c0 = stats_read L E w sf (zero_counters L)"
    and "u = counter_updates w"
  shows "\<exists>wa wb.
           stats_flush L E w = Inr wa \<and> counter_updates wa = u
           \<and> files wa sf = Some (stats_text (map2 (+) c0 u))
           \<and> stats_flush L E wa = Inr wb \<and> counter_updates wb = u
           \<and> files wb sf = Some (stats_text (map2 (+) (map2 (+) c0 u) u))"
proof -
  note props = choose_stats_file_props [OF assms(6)]
  have m1: "merged_counters L E w1 sf = map2 (+) c0 u"
    using merged_counters_files_cong [of w1 sf w L E] props
    by (simp add: merged_counters_eq assms(3,12,13))
  from stats_flush_ok [OF assms(4-9) assms(3)] obtain wa where
    wa: "stats_flush L E w = Inr wa"
    and fa: "files wa = ((files w)(sf \<mapsto> stats_text (map2 (+) c0 u)))(tmp_name E sf := None)"
    and ua: "counter_updates wa = counter_updates w"
    and sa: "stats_file wa = Some sf"
    by (auto simp: m1)
  have fsf: "files wa sf = Some (stats_text (map2 (+) c0 u))"
    using tmp_name_neq [of E sf] by (simp add: fa)
  have len1: "length (map2 (+) c0 u) = STATS_END L"
    by (simp add: assms(3,12,13) stats_read_length zero_counters_length)
  then have ne: "map2 (+) c0 u \<noteq> []" using assms(2) by auto
  have rd: "stats_read L E wa sf (zero_counters L) = map2 (+) c0 u"
    using stats_read_text [OF fsf assms(10,11) ne _ assms(1)] len1 by simp
  have m2: "merged_counters L E wa sf = map2 (+) (map2 (+) c0 u) u"
    by (simp add: merged_counters_eq ua assms(3) rd assms(13))
  have sf2: "should_flush L wa" using assms(5) by (simp add: should_flush_def ua)
  have la: "length (counter_updates wa) = STATS_END L" by (simp add: ua assms(3))
  from stats_flush_ok [OF assms(4) sf2 choose_stats_file_again [OF sa] assms(7,8,9) la]
  obtain wb where wb: "stats_flush L E wa = Inr wb"
    and fb: "files wb = ((files wa)(sf \<mapsto> stats_text (map2 (+) (map2 (+) c0 u) u)))(tmp_name E sf := None)"
    and ub: "counter_updates wb = counter_updates wa"
    by (auto simp: m2)
  have "files wb sf = Some (stats_text (map2 (+) (map2 (+) c0 u) u))"
    using tmp_name_neq [of E sf] by (simp add: fb)
  with wa wb fsf ua ub assms(13) show ?thesis by auto
qed

subsection \<open>A flush evaluated\<close>

lemma zero_counters_seq:
  "zero_counters seq_layout
   = [0, 0, 0, 0, 0, 0, 0, 0, 0, 0, 0, 0, 0, 0, 0, 0, 0, 0, 0, 0, 0, 0, 0, 0, 0, 0]"
  by (simp add: zero_counters_def seq_layout_def eval_nat_numeral)

lemma should_flush_flush_world: "should_flush seq_layout flush_world"
  by (simp add: should_flush_def seq_layout_def flush_world_def upt_rec)

lemma read_flush_world:
  "stats_read seq_layout ok_env flush_world ''/c/3/stats'' (zero_counters seq_layout)
   = [0, 0, 0, 0, 0, 0, 0, 0, 0, 0, 0, 0, 0, 0, 65536, 0, 0, 0, 0, 0, 0, 0, 0, 0, 0, 0]"
proof -
  have "files flush_world ''/c/3/stats'' = None" by (simp add: flush_world_def)
  then have "stats_read seq_layout ok_env flush_world ''/c/3/stats'' (zero_counters seq_layout)
             = stats_default seq_layout (zero_counters seq_layout)"
    by (simp add: stats_read_default)
  also have "\<dots> = [0, 0, 0, 0, 0, 0, 0, 0, 0, 0, 0, 0, 0, 0, 65536, 0, 0, 0, 0, 0, 0, 0, 0, 0, 0, 0]"
    by (simp add: zero_counters_seq stats_default_def DEFAULT_MAXSIZE_def) (simp add: seq_layout_def)
  finally show ?thesis .
qed

lemma merged_flush_world:
  "merged_counters seq_layout ok_env flush_world ''/c/3/stats''
   = [0, 0, 0, 0, 1, 0, 0, 0, 0, 0, 0, 1, 70000, 0, 65536, 0, 0, 0, 0, 0, 0, 0, 0, 0, 0, 0]"
proof -
  have len: "length (counter_updates flush_world) = STATS_END seq_layout"
    by (simp add: flush_world_def seq_layout_def)
  show ?thesis
    by (simp add: merged_counters_eq [OF len] read_flush_world) (simp add: flush_world_def)
qed

theorem flush_cleanup_iff_witness:
  "cleanup_calls (final_world (stats_flush seq_layout ok_env flush_world))
     = [(''/c/3'', 0, 65536)]"
proof -
  have h1: "\<not> getenv_NOSTATS ok_env" by (simp add: ok_env_def)
  have h3: "choose_stats_file ok_env flush_world = Some (''/c/3/stats'', flush_world)"
    by (simp add: choose_stats_file_def flush_world_def)
  have h4: "lockfile_acquire ok_env ''/c/3/stats'' (lock_staleness_limit ok_env)"
    by (simp add: ok_env_def)
  have len: "length (counter_updates flush_world) = STATS_END seq_layout"
    by (simp add: flush_world_def seq_layout_def)
  have "\<exists>w'. stats_flush seq_layout ok_env flush_world = Inr w'"
    using stats_flush_ok [OF h1 should_flush_flush_world h3 h4 _ _ len]
    by (auto simp: ok_env_def)
  then have h5: "stats_flush seq_layout ok_env flush_world
                 = Inr (final_world (stats_flush seq_layout ok_env flush_world))"
    by (auto simp: final_world_def)
  have cc: "cleanup_calls flush_world = []" by (simp add: flush_world_def)
  from flush_cleanup_iff [OF h1 should_flush_flush_world h3 h4 h5 refl]
  show ?thesis
    by (simp add: merged_flush_world cc) (simp add: seq_layout_def ok_env_def)
qed

theorem flush_twice_adds_twice_witness:
  "files_after (stats_flush seq_layout ok_env flush_world) ''/c/3/stats''
     = Some (stats_text
         [0, 0, 0, 0, 1, 0, 0, 0, 0, 0, 0, 1, 70000, 0, 65536, 0, 0, 0, 0, 0, 0, 0, 0, 0, 0, 0])
   \<and> files_after (stats_flush seq_layout ok_env
                    (final_world (stats_flush seq_layout ok_env flush_world))) ''/c/3/stats''
     = Some (stats_text
         [0, 0, 0, 0, 2, 0, 0, 0, 0, 0, 0, 2, 140000, 0, 65536, 0, 0, 0, 0, 0, 0, 0, 0, 0, 0, 0])"
proof -
  have h1: "\<not> getenv_NOSTATS ok_env" by (simp add: ok_env_def)
  have h3: "choose_stats_file ok_env flush_world = Some (''/c/3/stats'', flush_world)"
    by (simp add: choose_stats_file_def flush_world_def)
  have h4: "lockfile_acquire ok_env ''/c/3/stats'' (lock_staleness_limit ok_env)"
    by (simp add: ok_env_def)
  have len: "length (counter_updates flush_world) = STATS_END seq_layout"
    by (simp add: flush_world_def seq_layout_def)
  have fb: "fits_buf seq_layout" and pos: "0 < STATS_END seq_layout"
    by (simp_all add: fits_buf_def seq_layout_def)
  have h5: "fopen_ok ok_env (tmp_name ok_env ''/c/3/stats'')"
    and h6: "(\<forall>i < STATS_END seq_layout. fprintf_ok ok_env (tmp_name ok_env ''/c/3/stats'') i)
          \<and> fclose_fails_after ok_env (tmp_name ok_env ''/c/3/stats'') = None"
    and h7: "\<not> open_denied ok_env ''/c/3/stats''" and h8: "\<not> read_error ok_env ''/c/3/stats''"
    by (simp_all add: ok_env_def)
  from flush_twice_adds_twice [OF fb pos len h1 should_flush_flush_world h3 h4 h5 h6 h7 h8 refl refl]
  obtain wa wb where "stats_flush seq_layout ok_env flush_world = Inr wa"
    and "files wa ''/c/3/stats'' = Some (stats_text (map2 (+)
           (stats_read seq_layout ok_env flush_world ''/c/3/stats'' (zero_counters seq_layout))
           (counter_updates flush_world)))"
    and "stats_flush seq_layout ok_env wa = Inr wb"
    and "files wb ''/c/3/stats'' = Some (stats_text (map2 (+) (map2 (+)
           (stats_read seq_layout ok_env flush_world ''/c/3/stats'' (zero_counters seq_layout))
           (counter_updates flush_world)) (counter_updates flush_world)))"
    by blast
  then show ?thesis
    by (simp add: files_after_def final_world_def read_flush_world) (simp add: flush_world_def)
qed

section \<open>The sixteen shards: zeroing and setting limits\<close>

lemma hex_digit_inj: "a < 16 \<Longrightarrow> b < 16 \<Longrightarrow> hex_digit a = hex_digit b \<Longrightarrow> a = b"
proof -
  assume a: "a < 16" and b: "b < 16" and eq: "hex_digit a = hex_digit b"
  have d: "distinct ''0123456789abcdef''" by simp
  have "a < length ''0123456789abcdef''" "b < length ''0123456789abcdef''"
    using a b by simp_all
  with d eq show "a = b"
    unfolding hex_digit_def by (simp only: nth_eq_iff_index_eq)
qed

lemma shard_file_inj:
  "a < 16 \<Longrightarrow> b < 16 \<Longrightarrow> shard_file cd a = shard_file cd b \<Longrightarrow> a = b"
  by (auto simp: shard_file_def shard_dir_def dest: hex_digit_inj)

lemma shard_file_neq_top: "shard_file cd d \<noteq> top_file cd"
  by (simp add: shard_file_def shard_dir_def top_file_def)

lemma tmp_neq_shard_file: "tmp_name E (shard_file cd a) \<noteq> shard_file cd b"
proof
  assume "tmp_name E (shard_file cd a) = shard_file cd b"
  then have "length (tmp_name E (shard_file cd a)) = length (shard_file cd b)" by simp
  then show False by (simp add: tmp_name_def shard_file_def shard_dir_def)
qed

lemma tmp_neq_top_file: "tmp_name E (shard_file cd a) \<noteq> top_file cd"
proof
  assume "tmp_name E (shard_file cd a) = top_file cd"
  then have "length (tmp_name E (shard_file cd a)) = length (top_file cd)" by simp
  then show False by (simp add: tmp_name_def shard_file_def shard_dir_def top_file_def)
qed

text \<open>What \<open>write_stats\<close> does to the files, whatever its outcome.\<close>

lemma write_stats_frame:
  assumes "p \<noteq> path" and "p \<noteq> tmp_name E path"
  shows "files_after (write_stats L E path c w) p = files w p"
  using assms
  by (auto simp: files_after_def final_world_def write_stats_def Let_def x_rename_def
      split: sum.splits)

lemma write_stats_files:
  assumes "fopen_ok E (tmp_name E path) \<longrightarrow> ((\<forall>i < STATS_END L. fprintf_ok E (tmp_name E path) i)
        \<and> fclose_fails_after E (tmp_name E path) = None)"
    and "length c = STATS_END L"
  shows "\<exists>w'. write_stats L E path c w = Inr w'
           \<and> files w' = (if fopen_ok E (tmp_name E path)
                         then ((files w)(path \<mapsto> stats_text c))(tmp_name E path := None)
                         else files w)"
proof (cases "fopen_ok E (tmp_name E path)")
  case True
  with assms(1) have "(\<forall>i < STATS_END L. fprintf_ok E (tmp_name E path) i)
        \<and> fclose_fails_after E (tmp_name E path) = None" by simp
  from write_stats_ok [OF True this assms(2), of w] True show ?thesis by simp
next
  case False
  from write_stats_fopen_fail [OF False] False show ?thesis by simp
qed

lemma zero_entries_length: "length (zero_entries L es c) = length c"
  by (induction es arbitrary: c) auto

lemma apply_limits_length: "length (apply_limits L mf ms c) = length c"
  by (simp add: apply_limits_def Let_def)

text \<open>A shard whose lock is not acquired keeps its file, whatever else happens.\<close>

lemma zero_loop_frame:
  assumes "\<forall>d \<in> set ds. lockfile_acquire E (shard_file cd d) (lock_staleness_limit E) \<longrightarrow>
             p \<noteq> shard_file cd d \<and> p \<noteq> tmp_name E (shard_file cd d)"
  shows "files_after (zero_loop L E cd ds w) p = files w p"
  using assms
proof (induction ds arbitrary: w)
  case Nil
  show ?case by (simp add: files_after_def final_world_def)
next
  case (Cons d ds)
  show ?case
  proof (cases "lockfile_acquire E (shard_file cd d) (lock_staleness_limit E)")
    case False
    then show ?thesis using Cons by (simp add: Let_def)
  next
    case True
    let ?c = "zero_entries L stats_info (stats_read L E w (shard_file cd d) (zero_counters L))"
    have fr: "files_after (write_stats L E (shard_file cd d) ?c w) p = files w p"
      using Cons.prems True by (intro write_stats_frame) auto
    show ?thesis
    proof (cases "write_stats L E (shard_file cd d) ?c w")
      case (Inl e)
      then show ?thesis using True fr by (simp add: Let_def)
    next
      case (Inr w')
      have "files_after (zero_loop L E cd ds w') p = files w' p"
        using Cons.prems by (intro Cons.IH) auto
      then show ?thesis
        using True fr Inr by (simp add: Let_def files_after_def final_world_def)
    qed
  qed
qed

text \<open>
  The files after the loop of \<open>stats_zero\<close>, when no \<open>fprintf\<close> or \<open>fclose\<close> fails: every shard
  whose lock is acquired and whose temporary file can be opened holds the counters read
  from it, zeroed; every other shard is as it was.
\<close>

lemma zero_loop_files:
  assumes "distinct ds" and "\<forall>d \<in> set ds. d < 16"
    and "\<forall>d \<in> set ds. (\<forall>i < STATS_END L. fprintf_ok E (tmp_name E (shard_file cd d)) i)
          \<and> fclose_fails_after E (tmp_name E (shard_file cd d)) = None"
  shows "\<exists>w'. zero_loop L E cd ds w = Inr w'
           \<and> (\<forall>d \<in> set ds. files w' (shard_file cd d) =
                 (if lockfile_acquire E (shard_file cd d) (lock_staleness_limit E)
                     \<and> fopen_ok E (tmp_name E (shard_file cd d))
                  then Some (stats_text (zero_entries L stats_info
                         (stats_read L E w (shard_file cd d) (zero_counters L))))
                  else files w (shard_file cd d)))"
  using assms
proof (induction ds arbitrary: w)
  case Nil
  show ?case by simp
next
  case (Cons d ds)
  let ?p = "shard_file cd d"
  let ?c = "zero_entries L stats_info (stats_read L E w ?p (zero_counters L))"
  have rest: "distinct ds" "\<forall>d \<in> set ds. d < 16"
    "\<forall>d \<in> set ds. (\<forall>i < STATS_END L. fprintf_ok E (tmp_name E (shard_file cd d)) i)
          \<and> fclose_fails_after E (tmp_name E (shard_file cd d)) = None"
    using Cons.prems by simp_all
  have other: "shard_file cd x \<noteq> ?p \<and> shard_file cd x \<noteq> tmp_name E ?p" if "x \<in> set ds" for x
  proof -
    have "x \<noteq> d" "x < 16" "d < 16" using that Cons.prems by auto
    then show ?thesis
      using shard_file_inj [of x d cd] tmp_neq_shard_file [of E cd d x] by auto
  qed
  have self: "\<forall>x \<in> set ds. lockfile_acquire E (shard_file cd x) (lock_staleness_limit E) \<longrightarrow>
                ?p \<noteq> shard_file cd x \<and> ?p \<noteq> tmp_name E (shard_file cd x)"
  proof (intro ballI impI)
    fix x assume "x \<in> set ds"
    then have "x \<noteq> d" "x < 16" "d < 16" using Cons.prems by auto
    then show "?p \<noteq> shard_file cd x \<and> ?p \<noteq> tmp_name E (shard_file cd x)"
      using shard_file_inj [of d x cd] tmp_neq_shard_file [of E cd x d] by auto
  qed
  show ?case
  proof (cases "lockfile_acquire E ?p (lock_staleness_limit E)")
    case False
    from Cons.IH [OF rest, of w] obtain w' where
      w': "zero_loop L E cd ds w = Inr w'"
      and fs: "\<forall>d \<in> set ds. files w' (shard_file cd d) =
                 (if lockfile_acquire E (shard_file cd d) (lock_staleness_limit E)
                     \<and> fopen_ok E (tmp_name E (shard_file cd d))
                  then Some (stats_text (zero_entries L stats_info
                         (stats_read L E w (shard_file cd d) (zero_counters L))))
                  else files w (shard_file cd d))"
      by blast
    have "files w' ?p = files w ?p"
      using zero_loop_frame [OF self, of L w] w' by (simp add: files_after_def final_world_def)
    then show ?thesis using False w' fs by (simp add: Let_def)
  next
    case True
    have len: "length ?c = STATS_END L"
      by (simp add: zero_entries_length stats_read_length zero_counters_length)
    have "fopen_ok E (tmp_name E ?p) \<longrightarrow> ((\<forall>i < STATS_END L. fprintf_ok E (tmp_name E ?p) i)
          \<and> fclose_fails_after E (tmp_name E ?p) = None)"
      using Cons.prems(3) by simp
    from write_stats_files [OF this len, of w] obtain w1 where
      w1: "write_stats L E ?p ?c w = Inr w1"
      and f1: "files w1 = (if fopen_ok E (tmp_name E ?p)
                 then ((files w)(?p \<mapsto> stats_text ?c))(tmp_name E ?p := None) else files w)"
      by blast
    have same: "files w1 (shard_file cd x) = files w (shard_file cd x)" if "x \<in> set ds" for x
      using other [OF that] by (simp add: f1)
    from Cons.IH [OF rest, of w1] obtain w' where
      w': "zero_loop L E cd ds w1 = Inr w'"
      and fs: "\<forall>d \<in> set ds. files w' (shard_file cd d) =
                 (if lockfile_acquire E (shard_file cd d) (lock_staleness_limit E)
                     \<and> fopen_ok E (tmp_name E (shard_file cd d))
                  then Some (stats_text (zero_entries L stats_info
                         (stats_read L E w1 (shard_file cd d) (zero_counters L))))
                  else files w1 (shard_file cd d))"
      by blast
    have keep: "files w' ?p = files w1 ?p"
      using zero_loop_frame [OF self, of L w1] w' by (simp add: files_after_def final_world_def)
    have here: "files w1 ?p = (if fopen_ok E (tmp_name E ?p) then Some (stats_text ?c) else files w ?p)"
      using tmp_name_neq [of E ?p] by (simp add: f1)
    have "\<forall>x \<in> set ds. files w' (shard_file cd x) =
                 (if lockfile_acquire E (shard_file cd x) (lock_staleness_limit E)
                     \<and> fopen_ok E (tmp_name E (shard_file cd x))
                  then Some (stats_text (zero_entries L stats_info
                         (stats_read L E w (shard_file cd x) (zero_counters L))))
                  else files w (shard_file cd x))"
      using fs same stats_read_files_cong [OF same] by simp
    then show ?thesis
      using True w1 w' keep here by (simp add: Let_def)
  qed
qed

lemma limits_loop_frame:
  assumes "\<forall>d \<in> set ds. lockfile_acquire E (shard_file cd d) (lock_staleness_limit E) \<longrightarrow>
             p \<noteq> shard_file cd d \<and> p \<noteq> tmp_name E (shard_file cd d)"
  shows "files (limits_world (limits_loop L E cd mf ms ds w)) p = files w p"
  using assms
proof (induction ds arbitrary: w)
  case Nil
  show ?case by (simp add: limits_world_def)
next
  case (Cons d ds)
  have fn: "shard_dir cd d @ ''/stats'' = shard_file cd d" by (simp add: shard_file_def)
  show ?case
  proof (cases "create_dir E (shard_dir cd d) \<noteq> 0")
    case True
    then show ?thesis by (simp add: Let_def limits_world_def)
  next
    case dir_ok: False
    show ?thesis
    proof (cases "lockfile_acquire E (shard_file cd d) (lock_staleness_limit E)")
      case False
      then show ?thesis using Cons dir_ok by (simp add: Let_def fn)
    next
      case True
      let ?c = "apply_limits L mf ms (stats_read L E w (shard_file cd d) (zero_counters L))"
      have fr: "files_after (write_stats L E (shard_file cd d) ?c w) p = files w p"
        using Cons.prems True by (intro write_stats_frame) auto
      show ?thesis
      proof (cases "write_stats L E (shard_file cd d) ?c w")
        case (Inl e)
        then show ?thesis
          using True dir_ok fr
          by (cases e) (simp add: Let_def fn limits_world_def files_after_def final_world_def)
      next
        case (Inr w')
        have "files (limits_world (limits_loop L E cd mf ms ds w')) p = files w' p"
          using Cons.prems by (intro Cons.IH) auto
        then show ?thesis
          using True dir_ok fr Inr by (simp add: Let_def fn files_after_def final_world_def)
      qed
    qed
  qed
qed

lemma limits_loop_files:
  assumes "distinct ds" and "\<forall>d \<in> set ds. d < 16"
    and "\<forall>d \<in> set ds. create_dir E (shard_dir cd d) = 0"
    and "\<forall>d \<in> set ds. (\<forall>i < STATS_END L. fprintf_ok E (tmp_name E (shard_file cd d)) i)
          \<and> fclose_fails_after E (tmp_name E (shard_file cd d)) = None"
  shows "\<exists>w'. limits_loop L E cd mf ms ds w = Inr (0, w')
           \<and> (\<forall>d \<in> set ds. files w' (shard_file cd d) =
                 (if lockfile_acquire E (shard_file cd d) (lock_staleness_limit E)
                     \<and> fopen_ok E (tmp_name E (shard_file cd d))
                  then Some (stats_text (apply_limits L mf ms
                         (stats_read L E w (shard_file cd d) (zero_counters L))))
                  else files w (shard_file cd d)))"
  using assms
proof (induction ds arbitrary: w)
  case Nil
  show ?case by simp
next
  case (Cons d ds)
  let ?p = "shard_file cd d"
  let ?c = "apply_limits L mf ms (stats_read L E w ?p (zero_counters L))"
  have fn: "shard_dir cd d @ ''/stats'' = ?p" by (simp add: shard_file_def)
  have dir_ok: "create_dir E (shard_dir cd d) = 0" using Cons.prems(3) by simp
  have rest: "distinct ds" "\<forall>d \<in> set ds. d < 16"
    "\<forall>d \<in> set ds. create_dir E (shard_dir cd d) = 0"
    "\<forall>d \<in> set ds. (\<forall>i < STATS_END L. fprintf_ok E (tmp_name E (shard_file cd d)) i)
          \<and> fclose_fails_after E (tmp_name E (shard_file cd d)) = None"
    using Cons.prems by simp_all
  have other: "shard_file cd x \<noteq> ?p \<and> shard_file cd x \<noteq> tmp_name E ?p" if "x \<in> set ds" for x
  proof -
    have "x \<noteq> d" "x < 16" "d < 16" using that Cons.prems by auto
    then show ?thesis
      using shard_file_inj [of x d cd] tmp_neq_shard_file [of E cd d x] by auto
  qed
  have self: "\<forall>x \<in> set ds. lockfile_acquire E (shard_file cd x) (lock_staleness_limit E) \<longrightarrow>
                ?p \<noteq> shard_file cd x \<and> ?p \<noteq> tmp_name E (shard_file cd x)"
  proof (intro ballI impI)
    fix x assume "x \<in> set ds"
    then have "x \<noteq> d" "x < 16" "d < 16" using Cons.prems by auto
    then show "?p \<noteq> shard_file cd x \<and> ?p \<noteq> tmp_name E (shard_file cd x)"
      using shard_file_inj [of d x cd] tmp_neq_shard_file [of E cd x d] by auto
  qed
  show ?case
  proof (cases "lockfile_acquire E ?p (lock_staleness_limit E)")
    case False
    from Cons.IH [OF rest, of w] obtain w' where
      w': "limits_loop L E cd mf ms ds w = Inr (0, w')"
      and fs: "\<forall>d \<in> set ds. files w' (shard_file cd d) =
                 (if lockfile_acquire E (shard_file cd d) (lock_staleness_limit E)
                     \<and> fopen_ok E (tmp_name E (shard_file cd d))
                  then Some (stats_text (apply_limits L mf ms
                         (stats_read L E w (shard_file cd d) (zero_counters L))))
                  else files w (shard_file cd d))"
      by blast
    have "files w' ?p = files w ?p"
      using limits_loop_frame [OF self, of L mf ms w] w' by (simp add: limits_world_def)
    then show ?thesis using False w' fs dir_ok by (simp add: Let_def fn)
  next
    case True
    have len: "length ?c = STATS_END L"
      by (simp add: apply_limits_length stats_read_length zero_counters_length)
    have "fopen_ok E (tmp_name E ?p) \<longrightarrow> ((\<forall>i < STATS_END L. fprintf_ok E (tmp_name E ?p) i)
          \<and> fclose_fails_after E (tmp_name E ?p) = None)"
      using Cons.prems(4) by simp
    from write_stats_files [OF this len, of w] obtain w1 where
      w1: "write_stats L E ?p ?c w = Inr w1"
      and f1: "files w1 = (if fopen_ok E (tmp_name E ?p)
                 then ((files w)(?p \<mapsto> stats_text ?c))(tmp_name E ?p := None) else files w)"
      by blast
    have same: "files w1 (shard_file cd x) = files w (shard_file cd x)" if "x \<in> set ds" for x
      using other [OF that] by (simp add: f1)
    from Cons.IH [OF rest, of w1] obtain w' where
      w': "limits_loop L E cd mf ms ds w1 = Inr (0, w')"
      and fs: "\<forall>d \<in> set ds. files w' (shard_file cd d) =
                 (if lockfile_acquire E (shard_file cd d) (lock_staleness_limit E)
                     \<and> fopen_ok E (tmp_name E (shard_file cd d))
                  then Some (stats_text (apply_limits L mf ms
                         (stats_read L E w1 (shard_file cd d) (zero_counters L))))
                  else files w1 (shard_file cd d))"
      by blast
    have keep: "files w' ?p = files w1 ?p"
      using limits_loop_frame [OF self, of L mf ms w1] w' by (simp add: limits_world_def)
    have here: "files w1 ?p = (if fopen_ok E (tmp_name E ?p) then Some (stats_text ?c) else files w ?p)"
      using tmp_name_neq [of E ?p] by (simp add: f1)
    have "\<forall>x \<in> set ds. files w' (shard_file cd x) =
                 (if lockfile_acquire E (shard_file cd x) (lock_staleness_limit E)
                     \<and> fopen_ok E (tmp_name E (shard_file cd x))
                  then Some (stats_text (apply_limits L mf ms
                         (stats_read L E w (shard_file cd x) (zero_counters L))))
                  else files w (shard_file cd x))"
      using fs same stats_read_files_cong [OF same] by simp
    then show ?thesis
      using True w1 w' keep here dir_ok by (simp add: Let_def fn)
  qed
qed

lemma zero_entries_nth:
  "i < length c \<Longrightarrow>
   zero_entries L es c ! i = (if i \<in> stat_index L ` set (zeroed_stats es) then 0 else c ! i)"
proof (induction es arbitrary: c)
  case Nil
  show ?case by (simp add: zeroed_stats_def)
next
  case (Cons e es)
  show ?case
  proof (cases "message e = None")
    case True
    then show ?thesis by (simp add: zeroed_stats_def)
  next
    case False
    have zs: "zeroed_stats (e # es) =
        (if flags e AND FLAG_NOZERO = 0 then stat e # zeroed_stats es else zeroed_stats es)"
      using False by (simp add: zeroed_stats_def)
    show ?thesis
      using False Cons.prems Cons.IH [of "c[stat_index L (stat e) := 0]"] Cons.IH [of c]
      by (auto simp: zs nth_list_update)
  qed
qed

lemma zeroed_stats_info:
  "zeroed_stats stats_info =
     [STATS_CACHEHIT_DIR, STATS_CACHEHIT_CPP, STATS_TOCACHE, STATS_LINK, STATS_MULTIPLE,
      STATS_STDOUT, STATS_NOOUTPUT, STATS_EMPTYOUTPUT, STATS_STATUS, STATS_ERROR,
      STATS_PREPROCESSOR, STATS_COMPILER, STATS_MISSING, STATS_ARGS, STATS_SOURCELANG,
      STATS_CONFTEST, STATS_UNSUPPORTED, STATS_OUTSTDOUT, STATS_DEVICE, STATS_NOINPUT,
      STATS_BADEXTRAFILE]"
  by (simp add: zeroed_stats_def stats_info_def mk_info_def FLAG_NOZERO_def FLAG_ALWAYS_def)

lemma all_stats_complete: "s \<in> set all_stats"
  by (cases s) (simp_all add: all_stats_def)

lemma layout_ok_index: "layout_ok L \<Longrightarrow> stat_index L s < STATS_END L"
  using all_stats_complete [of s] by (auto simp: layout_ok_def list_all_iff)

lemma layout_ok_inj: "layout_ok L \<Longrightarrow> stat_index L s = stat_index L t \<Longrightarrow> s = t"
proof -
  assume ok: "layout_ok L" and eq: "stat_index L s = stat_index L t"
  from ok have "inj_on (stat_index L) (set all_stats)"
    by (simp add: layout_ok_def distinct_map)
  with eq all_stats_complete [of s] all_stats_complete [of t] show "s = t"
    by (auto dest: inj_onD)
qed

lemma zeroed_iff_not_kept:
  "s \<in> set (zeroed_stats stats_info) \<longleftrightarrow> s \<notin> set nozero_stats \<and> s \<noteq> STATS_NONE"
  by (cases s) (simp_all add: zeroed_stats_info nozero_stats_def)

lemma zero_entries_stat:
  assumes "layout_ok L" and "length c = STATS_END L"
  shows "zero_entries L stats_info c ! stat_index L s =
           (if s \<notin> set nozero_stats \<and> s \<noteq> STATS_NONE then 0 else c ! stat_index L s)"
proof -
  have "stat_index L s \<in> stat_index L ` set (zeroed_stats stats_info)
        \<longleftrightarrow> s \<in> set (zeroed_stats stats_info)"
    using layout_ok_inj [OF assms(1)] by auto
  then show ?thesis
    using zero_entries_nth [of "stat_index L s" c L stats_info] layout_ok_index [OF assms(1), of s]
    by (simp add: assms(2) zeroed_iff_not_kept)
qed

lemma stats_zero_files:
  assumes "cache_dir E = Some cd"
    and "\<forall>d < 16. (\<forall>i < STATS_END L. fprintf_ok E (tmp_name E (shard_file cd d)) i)
          \<and> fclose_fails_after E (tmp_name E (shard_file cd d)) = None"
  shows "\<exists>w'. stats_zero L E w = Inr w'
           \<and> files w' (top_file cd) = None
           \<and> (\<forall>d < 16. files w' (shard_file cd d) =
                 (if lockfile_acquire E (shard_file cd d) (lock_staleness_limit E)
                     \<and> fopen_ok E (tmp_name E (shard_file cd d))
                  then Some (stats_text (zero_entries L stats_info
                         (stats_read L E w (shard_file cd d) (zero_counters L))))
                  else files w (shard_file cd d)))"
proof -
  let ?w0 = "unlink (top_file cd) w"
  have same: "files ?w0 (shard_file cd d) = files w (shard_file cd d)" for d
    using shard_file_neq_top [of cd d] by (simp add: unlink_def)
  have "distinct [0 ..< 16 :: nat]" "\<forall>d \<in> set [0 ..< 16 :: nat]. d < 16"
    "\<forall>d \<in> set [0 ..< 16]. (\<forall>i < STATS_END L. fprintf_ok E (tmp_name E (shard_file cd d)) i)
          \<and> fclose_fails_after E (tmp_name E (shard_file cd d)) = None"
    using assms(2) by simp_all
  from zero_loop_files [OF this, of ?w0] obtain w' where
    w': "zero_loop L E cd [0 ..< 16] ?w0 = Inr w'"
    and fs: "\<forall>d \<in> set [0 ..< 16]. files w' (shard_file cd d) =
                 (if lockfile_acquire E (shard_file cd d) (lock_staleness_limit E)
                     \<and> fopen_ok E (tmp_name E (shard_file cd d))
                  then Some (stats_text (zero_entries L stats_info
                         (stats_read L E ?w0 (shard_file cd d) (zero_counters L))))
                  else files ?w0 (shard_file cd d))"
    by blast
  have "files_after (zero_loop L E cd [0 ..< 16] ?w0) (top_file cd) = files ?w0 (top_file cd)"
    using shard_file_neq_top [of cd] tmp_neq_top_file [of E cd]
    by (intro zero_loop_frame) (auto simp: eq_commute)
  then have "files w' (top_file cd) = files ?w0 (top_file cd)"
    by (simp add: w' files_after_def final_world_def)
  then have top: "files w' (top_file cd) = None"
    by (simp add: unlink_def)
  have "\<forall>d < 16. files w' (shard_file cd d) =
                 (if lockfile_acquire E (shard_file cd d) (lock_staleness_limit E)
                     \<and> fopen_ok E (tmp_name E (shard_file cd d))
                  then Some (stats_text (zero_entries L stats_info
                         (stats_read L E w (shard_file cd d) (zero_counters L))))
                  else files w (shard_file cd d))"
    using fs same stats_read_files_cong [OF same] by simp
  with w' top show ?thesis by (simp add: stats_zero_def assms(1))
qed

lemma stats_zero_frame:
  assumes "cache_dir E = Some cd" and "d < 16"
    and "\<not> lockfile_acquire E (shard_file cd d) (lock_staleness_limit E)"
  shows "files_after (stats_zero L E w) (shard_file cd d) = files w (shard_file cd d)"
proof -
  have "\<forall>x \<in> set [0 ..< 16]. lockfile_acquire E (shard_file cd x) (lock_staleness_limit E) \<longrightarrow>
          shard_file cd d \<noteq> shard_file cd x \<and> shard_file cd d \<noteq> tmp_name E (shard_file cd x)"
  proof (intro ballI impI)
    fix x assume "x \<in> set [0 ..< 16 :: nat]"
      and "lockfile_acquire E (shard_file cd x) (lock_staleness_limit E)"
    then have "x \<noteq> d" "x < 16" using assms(3) by auto
    then show "shard_file cd d \<noteq> shard_file cd x \<and> shard_file cd d \<noteq> tmp_name E (shard_file cd x)"
      using shard_file_inj [of d x cd] assms(2) tmp_neq_shard_file [of E cd x d] by auto
  qed
  from zero_loop_frame [OF this, of L "unlink (top_file cd) w"] show ?thesis
    using shard_file_neq_top [of cd d] by (simp add: stats_zero_def assms(1) unlink_def)
qed

lemma fits_buf_seq: "fits_buf seq_layout" and stats_end_seq: "STATS_END seq_layout = 26"
  by (simp_all add: fits_buf_def seq_layout_def)

lemma read_shard0:
  "stats_read seq_layout ok_env shard0_world ''/c/0/stats'' (zero_counters seq_layout)
   = shard0_counters"
proof -
  have f: "files shard0_world ''/c/0/stats'' = Some (stats_text shard0_counters)"
    by (simp add: shard0_world_def)
  have l: "length shard0_counters = 26" by (simp add: shard0_counters_def)
  then have ne: "shard0_counters \<noteq> []" by auto
  from stats_read_text [OF f _ _ ne _ fits_buf_seq, of ok_env] show ?thesis
    by (simp add: l stats_end_seq) (simp add: ok_env_def)
qed

lemma zero_shard0:
  "zero_entries seq_layout stats_info shard0_counters
   = [0, 0, 0, 0, 0, 0, 0, 0, 0, 0, 0, 5, 300, 10, 100, 0, 0, 0, 0, 0, 0, 0, 0, 0, 0, 0]"
  by (simp add: stats_info_def mk_info_def FLAG_NOZERO_def FLAG_ALWAYS_def shard0_counters_def
      seq_layout_def)

lemma ok_env_facts:
  "cache_dir ok_env = Some ''/c''"
  "lockfile_acquire ok_env p n" "fopen_ok ok_env p" "fprintf_ok ok_env p i"
  "\<not> open_denied ok_env p" "\<not> read_error ok_env p" "create_dir ok_env p = 0"
  "\<not> getenv_NOSTATS ok_env" "fclose_fails_after ok_env p = None"
  by (simp_all add: ok_env_def)

lemma shard_file_c0: "shard_file ''/c'' 0 = ''/c/0/stats''"
  by (simp add: shard_file_def shard_dir_def hex_digit_def)

text \<open>
  C2. The claim fails: \<open>stats_zero\<close> keeps the file count and the total size as well.
  Shard 0 holds 5 files of 300 KiB; after \<open>stats_zero\<close>, with every call succeeding,
  reading the shard gives 5 and 300 again, where the claim has 0 and 0.
\<close>

theorem stats_zero_counterexample:
  "stats_read seq_layout ok_env (final_world (stats_zero seq_layout ok_env shard0_world))
     ''/c/0/stats'' (zero_counters seq_layout)
   = [0, 0, 0, 0, 0, 0, 0, 0, 0, 0, 0, 5, 300, 10, 100, 0, 0, 0, 0, 0, 0, 0, 0, 0, 0, 0]"
proof -
  let ?z = "[0, 0, 0, 0, 0, 0, 0, 0, 0, 0, 0, 5, 300, 10, 100, 0, 0, 0, 0, 0, 0, 0, 0, 0, 0, 0 :: counter]"
  from stats_zero_files [of ok_env "''/c''" seq_layout shard0_world]
  obtain w' where w': "stats_zero seq_layout ok_env shard0_world = Inr w'"
    and fs: "\<forall>d < 16. files w' (shard_file ''/c'' d) =
                 (if lockfile_acquire ok_env (shard_file ''/c'' d) (lock_staleness_limit ok_env)
                     \<and> fopen_ok ok_env (tmp_name ok_env (shard_file ''/c'' d))
                  then Some (stats_text (zero_entries seq_layout stats_info
                         (stats_read seq_layout ok_env shard0_world (shard_file ''/c'' d)
                            (zero_counters seq_layout))))
                  else files shard0_world (shard_file ''/c'' d))"
    by (auto simp: ok_env_facts)
  from fs have f: "files w' ''/c/0/stats'' = Some (stats_text ?z)"
    by (simp add: ok_env_facts shard_file_c0 [symmetric])
       (simp add: shard_file_c0 read_shard0 zero_shard0)
  have "stats_read seq_layout ok_env w' ''/c/0/stats'' (zero_counters seq_layout) = ?z"
    using stats_read_text [OF f _ _ _ _ fits_buf_seq, of ok_env]
    by (simp add: stats_end_seq ok_env_facts)
  then show ?thesis by (simp add: w' final_world_def)
qed

text \<open>
  C2, amended. For every starting state of the shard stats files, \<open>stats_zero\<close>
  removes the top-level stats file and, in every shard whose lock it acquires and whose
  file it can rewrite (the temporary file can be opened, and no \<open>fprintf\<close> or
  \<open>fclose\<close> fails), writes the counters it read with every counter of the display
  table set to 0, except the four that carry \<open>FLAG_NOZERO\<close>: the file count, the
  total size, the max-files and the max-size counters keep the values read.
\<close>

theorem stats_zero_keeps_nozero:
  assumes "layout_ok L" and "cache_dir E = Some cd"
    and "\<forall>d < 16. (\<forall>i < STATS_END L. fprintf_ok E (tmp_name E (shard_file cd d)) i)
          \<and> fclose_fails_after E (tmp_name E (shard_file cd d)) = None"
    and "d < 16" and "lockfile_acquire E (shard_file cd d) (lock_staleness_limit E)"
    and "fopen_ok E (tmp_name E (shard_file cd d))"
    and "c = stats_read L E w (shard_file cd d) (zero_counters L)"
  shows "\<exists>w' c'. stats_zero L E w = Inr w' \<and> files w' (top_file cd) = None
           \<and> files w' (shard_file cd d) = Some (stats_text c') \<and> length c' = STATS_END L
           \<and> (\<forall>s \<in> set nozero_stats. c' ! stat_index L s = c ! stat_index L s)
           \<and> (\<forall>s. s \<notin> set nozero_stats \<and> s \<noteq> STATS_NONE \<longrightarrow> c' ! stat_index L s = 0)"
proof -
  from stats_zero_files [OF assms(2,3), of w] obtain w' where
    w': "stats_zero L E w = Inr w'" and top: "files w' (top_file cd) = None"
    and fs: "files w' (shard_file cd d) = Some (stats_text (zero_entries L stats_info c))"
    using assms(4,5,6) by (auto simp: assms(7))
  have len: "length c = STATS_END L"
    by (simp add: assms(7) stats_read_length zero_counters_length)
  have "length (zero_entries L stats_info c) = STATS_END L"
    by (simp add: zero_entries_length len)
  moreover have "\<forall>s \<in> set nozero_stats.
      zero_entries L stats_info c ! stat_index L s = c ! stat_index L s"
    by (simp add: zero_entries_stat [OF assms(1) len])
  moreover have "\<forall>s. s \<notin> set nozero_stats \<and> s \<noteq> STATS_NONE \<longrightarrow>
      zero_entries L stats_info c ! stat_index L s = 0"
    by (simp add: zero_entries_stat [OF assms(1) len])
  ultimately show ?thesis using w' top fs by blast
qed

theorem stats_zero_keeps_nozero_witness:
  "\<exists>w' c'. stats_zero seq_layout ok_env shard0_world = Inr w'
     \<and> files w' (top_file ''/c'') = None
     \<and> files w' (shard_file ''/c'' 0) = Some (stats_text c') \<and> length c' = STATS_END seq_layout
     \<and> c' ! stat_index seq_layout STATS_NUMFILES = 5
     \<and> c' ! stat_index seq_layout STATS_TOTALSIZE = 300
     \<and> c' ! stat_index seq_layout STATS_MAXFILES = 10
     \<and> c' ! stat_index seq_layout STATS_MAXSIZE = 100
     \<and> c' ! stat_index seq_layout STATS_TOCACHE = 0"
proof -
  have rd: "shard0_counters
            = stats_read seq_layout ok_env shard0_world (shard_file ''/c'' 0) (zero_counters seq_layout)"
    by (simp add: shard_file_c0 read_shard0)
  have "\<forall>d < 16. (\<forall>i < STATS_END seq_layout. fprintf_ok ok_env (tmp_name ok_env (shard_file ''/c'' d)) i)
        \<and> fclose_fails_after ok_env (tmp_name ok_env (shard_file ''/c'' d)) = None"
    by (simp add: ok_env_facts)
  from stats_zero_keeps_nozero [OF layout_ok_seq ok_env_facts(1) this _ ok_env_facts(2,3) rd]
  obtain w' c' where "stats_zero seq_layout ok_env shard0_world = Inr w'"
    "files w' (top_file ''/c'') = None"
    "files w' (shard_file ''/c'' 0) = Some (stats_text c')" "length c' = STATS_END seq_layout"
    and keep: "\<forall>s \<in> set nozero_stats. c' ! stat_index seq_layout s = shard0_counters ! stat_index seq_layout s"
    and zero: "\<forall>s. s \<notin> set nozero_stats \<and> s \<noteq> STATS_NONE \<longrightarrow> c' ! stat_index seq_layout s = 0"
    by auto
  moreover from keep have "c' ! stat_index seq_layout STATS_NUMFILES = 5"
    "c' ! stat_index seq_layout STATS_TOTALSIZE = 300"
    "c' ! stat_index seq_layout STATS_MAXFILES = 10"
    "c' ! stat_index seq_layout STATS_MAXSIZE = 100"
    by (simp_all add: nozero_stats_def seq_layout_def shard0_counters_def)
  moreover from zero have "c' ! stat_index seq_layout STATS_TOCACHE = 0"
    by (simp add: nozero_stats_def)
  ultimately show ?thesis by blast
qed

lemma c_div_nonneg: "0 \<le> a \<Longrightarrow> c_div a 16 = a div 16"
  by (cases "a = 0") (simp_all add: c_div_def sgn_if)

lemma stats_set_limits_files:
  assumes "cache_dir E = Some cd" and "create_dir E cd = 0"
    and "\<forall>d < 16. create_dir E (shard_dir cd d) = 0"
    and "\<forall>d < 16. (\<forall>i < STATS_END L. fprintf_ok E (tmp_name E (shard_file cd d)) i)
          \<and> fclose_fails_after E (tmp_name E (shard_file cd d)) = None"
    and "0 \<le> maxfiles" and "0 \<le> maxsize"
  shows "\<exists>w'. stats_set_limits L E maxfiles maxsize w = Inr (0, w')
           \<and> (\<forall>d < 16. files w' (shard_file cd d) =
                 (if lockfile_acquire E (shard_file cd d) (lock_staleness_limit E)
                     \<and> fopen_ok E (tmp_name E (shard_file cd d))
                  then Some (stats_text (apply_limits L (maxfiles div 16) (maxsize div 16)
                         (stats_read L E w (shard_file cd d) (zero_counters L))))
                  else files w (shard_file cd d)))"
proof -
  have "distinct [0 ..< 16 :: nat]" "\<forall>d \<in> set [0 ..< 16 :: nat]. d < 16"
    "\<forall>d \<in> set [0 ..< 16]. create_dir E (shard_dir cd d) = 0"
    "\<forall>d \<in> set [0 ..< 16]. (\<forall>i < STATS_END L. fprintf_ok E (tmp_name E (shard_file cd d)) i)
          \<and> fclose_fails_after E (tmp_name E (shard_file cd d)) = None"
    using assms(3,4) by simp_all
  from limits_loop_files [OF this, of "maxfiles div 16" "maxsize div 16" w]
  obtain w' where w': "limits_loop L E cd (maxfiles div 16) (maxsize div 16) [0 ..< 16] w = Inr (0, w')"
    and fs: "\<forall>d \<in> set [0 ..< 16]. files w' (shard_file cd d) =
                 (if lockfile_acquire E (shard_file cd d) (lock_staleness_limit E)
                     \<and> fopen_ok E (tmp_name E (shard_file cd d))
                  then Some (stats_text (apply_limits L (maxfiles div 16) (maxsize div 16)
                         (stats_read L E w (shard_file cd d) (zero_counters L))))
                  else files w (shard_file cd d))"
    by blast
  have "stats_set_limits L E maxfiles maxsize w = Inr (0, w')"
    using assms(1,2,5,6) w' by (simp add: stats_set_limits_def c_div_nonneg Let_def)
  moreover have "\<forall>d < 16. files w' (shard_file cd d) =
                 (if lockfile_acquire E (shard_file cd d) (lock_staleness_limit E)
                     \<and> fopen_ok E (tmp_name E (shard_file cd d))
                  then Some (stats_text (apply_limits L (maxfiles div 16) (maxsize div 16)
                         (stats_read L E w (shard_file cd d) (zero_counters L))))
                  else files w (shard_file cd d))"
    using fs by simp
  ultimately show ?thesis by blast
qed

lemma stats_set_limits_frame:
  assumes "cache_dir E = Some cd" and "d < 16"
    and "\<not> lockfile_acquire E (shard_file cd d) (lock_staleness_limit E)"
  shows "files (limits_world (stats_set_limits L E maxfiles maxsize w)) (shard_file cd d)
         = files w (shard_file cd d)"
proof -
  have "\<forall>x \<in> set [0 ..< 16]. lockfile_acquire E (shard_file cd x) (lock_staleness_limit E) \<longrightarrow>
          shard_file cd d \<noteq> shard_file cd x \<and> shard_file cd d \<noteq> tmp_name E (shard_file cd x)"
  proof (intro ballI impI)
    fix x assume "x \<in> set [0 ..< 16 :: nat]"
      and "lockfile_acquire E (shard_file cd x) (lock_staleness_limit E)"
    then have "x \<noteq> d" "x < 16" using assms(3) by auto
    then show "shard_file cd d \<noteq> shard_file cd x \<and> shard_file cd d \<noteq> tmp_name E (shard_file cd x)"
      using shard_file_inj [of d x cd] assms(2) tmp_neq_shard_file [of E cd x d] by auto
  qed
  from limits_loop_frame [OF this] show ?thesis
    by (simp add: stats_set_limits_def assms(1) Let_def limits_world_def)
qed

lemma apply_limits_nth:
  assumes "layout_ok L" and "length c = STATS_END L" and "mf \<noteq> - 1" and "ms \<noteq> - 1"
    and "i < STATS_END L"
  shows "apply_limits L mf ms c ! i =
           (if i = stat_index L STATS_MAXSIZE then word_of_int ms
            else if i = stat_index L STATS_MAXFILES then word_of_int mf
            else c ! i)"
  using assms layout_ok_index [OF assms(1), of STATS_MAXFILES]
    layout_ok_index [OF assms(1), of STATS_MAXSIZE]
  by (simp add: apply_limits_def Let_def nth_list_update)

lemma unat_limit:
  assumes "0 \<le> m" and "m < 2 ^ 36"
  shows "unat (word_of_int (m div 16) :: counter) = nat (m div 16)"
proof -
  have "0 \<le> m div 16" "m div 16 < 2 ^ 32" using assms by simp_all
  then show ?thesis
    by (simp add: unat_eq_nat_uint uint_word_of_int take_bit_int_eq_self)
qed

lemma limits_shard0:
  "apply_limits seq_layout 4294967296 100 shard0_counters
   = [0, 0, 0, 0, 9, 0, 0, 0, 2, 0, 0, 5, 300, 0, 100, 0, 0, 0, 0, 0, 0, 0, 3, 0, 0, 0]"
  by (simp add: apply_limits_def shard0_counters_def seq_layout_def)

text \<open>
  C9. The claim fails for limits of \<open>2 ^ 36\<close> and more, because a counter has 32 bits:
  with a global max-files of \<open>68719476736 = 16 * 2 ^ 32\<close> the quotient is
  \<open>4294967296\<close>, and the max-files counter written to shard 0, read back here, is 0.
\<close>

theorem set_limits_counterexample:
  "stats_read seq_layout ok_env
     (limits_world (stats_set_limits seq_layout ok_env 68719476736 1600 shard0_world))
     ''/c/0/stats'' (zero_counters seq_layout)
   = [0, 0, 0, 0, 9, 0, 0, 0, 2, 0, 0, 5, 300, 0, 100, 0, 0, 0, 0, 0, 0, 0, 3, 0, 0, 0]"
proof -
  let ?z = "[0, 0, 0, 0, 9, 0, 0, 0, 2, 0, 0, 5, 300, 0, 100, 0, 0, 0, 0, 0, 0, 0, 3, 0, 0, 0 :: counter]"
  from stats_set_limits_files [of ok_env "''/c''" seq_layout 68719476736 1600 shard0_world]
  obtain w' where w': "stats_set_limits seq_layout ok_env 68719476736 1600 shard0_world = Inr (0, w')"
    and fs: "\<forall>d < 16. files w' (shard_file ''/c'' d) =
                 (if lockfile_acquire ok_env (shard_file ''/c'' d) (lock_staleness_limit ok_env)
                     \<and> fopen_ok ok_env (tmp_name ok_env (shard_file ''/c'' d))
                  then Some (stats_text (apply_limits seq_layout (68719476736 div 16) (1600 div 16)
                         (stats_read seq_layout ok_env shard0_world (shard_file ''/c'' d)
                            (zero_counters seq_layout))))
                  else files shard0_world (shard_file ''/c'' d))"
    by (auto simp: ok_env_facts)
  from fs have f: "files w' ''/c/0/stats'' = Some (stats_text ?z)"
    by (simp add: ok_env_facts shard_file_c0 [symmetric])
       (simp add: shard_file_c0 read_shard0 limits_shard0)
  have "stats_read seq_layout ok_env w' ''/c/0/stats'' (zero_counters seq_layout) = ?z"
    using stats_read_text [OF f _ _ _ _ fits_buf_seq, of ok_env]
    by (simp add: stats_end_seq ok_env_facts)
  then show ?thesis by (simp add: w' limits_world_def)
qed

text \<open>
  C9, amended. For every pair of global limits from 0 up to, but not including,
  \<open>2 ^ 36\<close>, when the directories can be created and no \<open>fprintf\<close> or \<open>fclose\<close>
  fails,
  \<open>stats_set_limits\<close> returns 0 and, in every shard whose lock it acquires and whose
  temporary file it can open, writes the counters it read with the max-files counter
  set to the global max-files divided by 16 and the max-size counter set to the global
  max-size divided by 16, the other counters as read.
\<close>

theorem set_limits_writes_quotients:
  assumes "layout_ok L" and "cache_dir E = Some cd" and "create_dir E cd = 0"
    and "\<forall>d < 16. create_dir E (shard_dir cd d) = 0"
    and "\<forall>d < 16. (\<forall>i < STATS_END L. fprintf_ok E (tmp_name E (shard_file cd d)) i)
          \<and> fclose_fails_after E (tmp_name E (shard_file cd d)) = None"
    and "0 \<le> maxfiles" and "maxfiles < 2 ^ 36" and "0 \<le> maxsize" and "maxsize < 2 ^ 36"
    and "d < 16" and "lockfile_acquire E (shard_file cd d) (lock_staleness_limit E)"
    and "fopen_ok E (tmp_name E (shard_file cd d))"
    and "c = stats_read L E w (shard_file cd d) (zero_counters L)"
  shows "\<exists>w' c'. stats_set_limits L E maxfiles maxsize w = Inr (0, w')
           \<and> files w' (shard_file cd d) = Some (stats_text c') \<and> length c' = STATS_END L
           \<and> unat (c' ! stat_index L STATS_MAXFILES) = nat (maxfiles div 16)
           \<and> unat (c' ! stat_index L STATS_MAXSIZE) = nat (maxsize div 16)
           \<and> (\<forall>i < STATS_END L. i \<noteq> stat_index L STATS_MAXFILES \<and> i \<noteq> stat_index L STATS_MAXSIZE
                 \<longrightarrow> c' ! i = c ! i)"
proof -
  let ?c' = "apply_limits L (maxfiles div 16) (maxsize div 16) c"
  from stats_set_limits_files [OF assms(2,3,4,5,6,8), of w] obtain w' where
    w': "stats_set_limits L E maxfiles maxsize w = Inr (0, w')"
    and fs: "files w' (shard_file cd d) = Some (stats_text ?c')"
    using assms(10,11,12) by (auto simp: assms(13))
  have len: "length c = STATS_END L"
    by (simp add: assms(13) stats_read_length zero_counters_length)
  have ne: "maxfiles div 16 \<noteq> - 1" "maxsize div 16 \<noteq> - 1"
    using assms(6,8) by (simp_all add: div_int_pos_iff)
  note nth = apply_limits_nth [OF assms(1) len ne]
  have neq: "stat_index L STATS_MAXFILES \<noteq> stat_index L STATS_MAXSIZE"
    using layout_ok_inj [OF assms(1), of STATS_MAXFILES STATS_MAXSIZE] by auto
  have "length ?c' = STATS_END L" by (simp add: apply_limits_length len)
  moreover have "unat (?c' ! stat_index L STATS_MAXFILES) = nat (maxfiles div 16)"
    using nth [OF layout_ok_index [OF assms(1)], of STATS_MAXFILES] neq
    by (simp add: unat_limit [OF assms(6,7)])
  moreover have "unat (?c' ! stat_index L STATS_MAXSIZE) = nat (maxsize div 16)"
    using nth [OF layout_ok_index [OF assms(1)], of STATS_MAXSIZE]
    by (simp add: unat_limit [OF assms(8,9)])
  moreover have "\<forall>i < STATS_END L. i \<noteq> stat_index L STATS_MAXFILES \<and> i \<noteq> stat_index L STATS_MAXSIZE
                 \<longrightarrow> ?c' ! i = c ! i"
    using nth by simp
  ultimately show ?thesis using w' fs by blast
qed

theorem set_limits_writes_quotients_witness:
  "\<exists>w' c'. stats_set_limits seq_layout ok_env 160 1600 shard0_world = Inr (0, w')
     \<and> files w' (shard_file ''/c'' 0) = Some (stats_text c')
     \<and> unat (c' ! stat_index seq_layout STATS_MAXFILES) = 10
     \<and> unat (c' ! stat_index seq_layout STATS_MAXSIZE) = 100
     \<and> c' ! stat_index seq_layout STATS_NUMFILES = 5"
proof -
  have rd: "shard0_counters
            = stats_read seq_layout ok_env shard0_world (shard_file ''/c'' 0) (zero_counters seq_layout)"
    by (simp add: shard_file_c0 read_shard0)
  have dirs: "\<forall>d < 16. create_dir ok_env (shard_dir ''/c'' d) = 0"
    and wr: "\<forall>d < 16. (\<forall>i < STATS_END seq_layout. fprintf_ok ok_env (tmp_name ok_env (shard_file ''/c'' d)) i)
          \<and> fclose_fails_after ok_env (tmp_name ok_env (shard_file ''/c'' d)) = None"
    by (simp_all add: ok_env_facts)
  have r: "(0::int) \<le> 160" "(160::int) < 2 ^ 36" "(0::int) \<le> 1600" "(1600::int) < 2 ^ 36"
    by simp_all
  from set_limits_writes_quotients [OF layout_ok_seq ok_env_facts(1) ok_env_facts(7) dirs wr r _
      ok_env_facts(2,3) rd]
  obtain w' c' where "stats_set_limits seq_layout ok_env 160 1600 shard0_world = Inr (0, w')"
    "files w' (shard_file ''/c'' 0) = Some (stats_text c')"
    "unat (c' ! stat_index seq_layout STATS_MAXFILES) = nat (160 div 16)"
    "unat (c' ! stat_index seq_layout STATS_MAXSIZE) = nat (1600 div 16)"
    and other: "\<forall>i < STATS_END seq_layout.
       i \<noteq> stat_index seq_layout STATS_MAXFILES \<and> i \<noteq> stat_index seq_layout STATS_MAXSIZE
         \<longrightarrow> c' ! i = shard0_counters ! i"
    by auto
  moreover from other have "c' ! stat_index seq_layout STATS_NUMFILES = 5"
    by (simp add: seq_layout_def shard0_counters_def)
  ultimately show ?thesis by auto
qed

lemma stats_flush_no_lock:
  assumes "choose_stats_file E w = Some (sf, w1)"
    and "\<not> lockfile_acquire E sf (lock_staleness_limit E)"
  shows "\<exists>w'. stats_flush L E w = Inr w' \<and> files w' = files w"
  using assms choose_stats_file_props(2) [OF assms(1)]
  by (simp add: stats_flush_def)

lemma stats_set_sizes_no_lock:
  assumes "\<not> lockfile_acquire E (dir @ ''/stats'') (lock_staleness_limit E)"
  shows "stats_set_sizes L E dir num_files total_size w = Inr w"
  using assms by (simp add: stats_set_sizes_def Let_def)

text \<open>
  C5. When the lock of a shard's stats file is not acquired: \<open>stats_flush\<close> returns
  with the files as they were; \<open>stats_set_sizes\<close> returns with nothing changed;
  \<open>stats_zero\<close> and \<open>stats_set_limits\<close> leave that shard's stats file as it was,
  whatever happens at the other shards, and, when no \<open>fprintf\<close> or \<open>fclose\<close>
  fails (and, for \<open>stats_set_limits\<close>, the directories can be created), they return
  normally,
  \<open>stats_set_limits\<close> with 0, having rewritten every shard whose lock they did acquire
  and whose temporary file they could open.
\<close>

theorem lock_failure_skips_shard:
  "(choose_stats_file E w = Some (sf, w1) \<and> \<not> lockfile_acquire E sf (lock_staleness_limit E)
      \<longrightarrow> (\<exists>w'. stats_flush L E w = Inr w' \<and> files w' = files w))
   \<and> (\<not> lockfile_acquire E (dir @ ''/stats'') (lock_staleness_limit E)
      \<longrightarrow> stats_set_sizes L E dir num_files total_size w = Inr w)
   \<and> (cache_dir E = Some cd \<and> d < 16
        \<and> \<not> lockfile_acquire E (shard_file cd d) (lock_staleness_limit E)
      \<longrightarrow> files_after (stats_zero L E w) (shard_file cd d) = files w (shard_file cd d)
        \<and> files (limits_world (stats_set_limits L E maxfiles maxsize w)) (shard_file cd d)
            = files w (shard_file cd d)
        \<and> ((\<forall>j < 16. (\<forall>i < STATS_END L. fprintf_ok E (tmp_name E (shard_file cd j)) i)
              \<and> fclose_fails_after E (tmp_name E (shard_file cd j)) = None)
            \<longrightarrow> (\<exists>w'. stats_zero L E w = Inr w'
                  \<and> (\<forall>j < 16. lockfile_acquire E (shard_file cd j) (lock_staleness_limit E)
                        \<and> fopen_ok E (tmp_name E (shard_file cd j))
                      \<longrightarrow> files w' (shard_file cd j)
                          = Some (stats_text (zero_entries L stats_info
                              (stats_read L E w (shard_file cd j) (zero_counters L)))))))
        \<and> ((\<forall>j < 16. (\<forall>i < STATS_END L. fprintf_ok E (tmp_name E (shard_file cd j)) i)
              \<and> fclose_fails_after E (tmp_name E (shard_file cd j)) = None)
            \<and> create_dir E cd = 0 \<and> (\<forall>j < 16. create_dir E (shard_dir cd j) = 0)
            \<and> 0 \<le> maxfiles \<and> 0 \<le> maxsize
            \<longrightarrow> (\<exists>w'. stats_set_limits L E maxfiles maxsize w = Inr (0, w')
                  \<and> (\<forall>j < 16. lockfile_acquire E (shard_file cd j) (lock_staleness_limit E)
                        \<and> fopen_ok E (tmp_name E (shard_file cd j))
                      \<longrightarrow> files w' (shard_file cd j)
                          = Some (stats_text (apply_limits L (maxfiles div 16) (maxsize div 16)
                              (stats_read L E w (shard_file cd j) (zero_counters L))))))))"
proof (intro conjI impI)
  assume "choose_stats_file E w = Some (sf, w1) \<and> \<not> lockfile_acquire E sf (lock_staleness_limit E)"
  then show "\<exists>w'. stats_flush L E w = Inr w' \<and> files w' = files w"
    using stats_flush_no_lock by blast
next
  assume "\<not> lockfile_acquire E (dir @ ''/stats'') (lock_staleness_limit E)"
  then show "stats_set_sizes L E dir num_files total_size w = Inr w"
    by (rule stats_set_sizes_no_lock)
next
  assume a: "cache_dir E = Some cd \<and> d < 16
        \<and> \<not> lockfile_acquire E (shard_file cd d) (lock_staleness_limit E)"
  then show "files_after (stats_zero L E w) (shard_file cd d) = files w (shard_file cd d)"
    using stats_zero_frame by blast
  from a show "files (limits_world (stats_set_limits L E maxfiles maxsize w)) (shard_file cd d)
            = files w (shard_file cd d)"
    using stats_set_limits_frame by blast
  {
    assume "\<forall>j < 16. (\<forall>i < STATS_END L. fprintf_ok E (tmp_name E (shard_file cd j)) i)
          \<and> fclose_fails_after E (tmp_name E (shard_file cd j)) = None"
    from stats_zero_files [OF _ this, of w] a
    show "\<exists>w'. stats_zero L E w = Inr w'
                  \<and> (\<forall>j < 16. lockfile_acquire E (shard_file cd j) (lock_staleness_limit E)
                        \<and> fopen_ok E (tmp_name E (shard_file cd j))
                      \<longrightarrow> files w' (shard_file cd j)
                          = Some (stats_text (zero_entries L stats_info
                              (stats_read L E w (shard_file cd j) (zero_counters L)))))"
      by (elim conjE) (fastforce)
  }
  {
    assume b: "(\<forall>j < 16. (\<forall>i < STATS_END L. fprintf_ok E (tmp_name E (shard_file cd j)) i)
          \<and> fclose_fails_after E (tmp_name E (shard_file cd j)) = None)
            \<and> create_dir E cd = 0 \<and> (\<forall>j < 16. create_dir E (shard_dir cd j) = 0)
            \<and> 0 \<le> maxfiles \<and> 0 \<le> maxsize"
    from a b stats_set_limits_files [of E cd L maxfiles maxsize w]
    obtain w' where "stats_set_limits L E maxfiles maxsize w = Inr (0, w')"
      and "\<forall>d < 16. files w' (shard_file cd d) =
                 (if lockfile_acquire E (shard_file cd d) (lock_staleness_limit E)
                     \<and> fopen_ok E (tmp_name E (shard_file cd d))
                  then Some (stats_text (apply_limits L (maxfiles div 16) (maxsize div 16)
                         (stats_read L E w (shard_file cd d) (zero_counters L))))
                  else files w (shard_file cd d))"
      by blast
    then show "\<exists>w'. stats_set_limits L E maxfiles maxsize w = Inr (0, w')
                  \<and> (\<forall>j < 16. lockfile_acquire E (shard_file cd j) (lock_staleness_limit E)
                        \<and> fopen_ok E (tmp_name E (shard_file cd j))
                      \<longrightarrow> files w' (shard_file cd j)
                          = Some (stats_text (apply_limits L (maxfiles div 16) (maxsize div 16)
                              (stats_read L E w (shard_file cd j) (zero_counters L)))))"
      by auto
  }
qed

lemma lock0_env_facts:
  "cache_dir lock0_env = Some ''/c''"
  "lockfile_acquire lock0_env p n \<longleftrightarrow> p \<noteq> ''/c/0/stats''"
  "fopen_ok lock0_env p" "fprintf_ok lock0_env p i"
  "\<not> open_denied lock0_env p" "\<not> read_error lock0_env p" "create_dir lock0_env p = 0" "fclose_fails_after lock0_env p = None"
  by (simp_all add: lock0_env_def ok_env_def)

lemma shard_file_c1: "shard_file ''/c'' 1 = ''/c/1/stats''"
  by (simp add: shard_file_def shard_dir_def hex_digit_def)

lemma default_seq:
  "stats_default seq_layout (zero_counters seq_layout)
   = [0, 0, 0, 0, 0, 0, 0, 0, 0, 0, 0, 0, 0, 0, 65536, 0, 0, 0, 0, 0, 0, 0, 0, 0, 0, 0]"
  by (simp add: zero_counters_seq stats_default_def DEFAULT_MAXSIZE_def) (simp add: seq_layout_def)

lemma read_shard1:
  "stats_read seq_layout E shard0_world ''/c/1/stats'' (zero_counters seq_layout)
   = [0, 0, 0, 0, 0, 0, 0, 0, 0, 0, 0, 0, 0, 0, 65536, 0, 0, 0, 0, 0, 0, 0, 0, 0, 0, 0]"
proof -
  have "files shard0_world ''/c/1/stats'' = None" by (simp add: shard0_world_def)
  then show ?thesis by (simp add: stats_read_default default_seq)
qed

lemma zero_shard1:
  "zero_entries seq_layout stats_info
     [0, 0, 0, 0, 0, 0, 0, 0, 0, 0, 0, 0, 0, 0, 65536, 0, 0, 0, 0, 0, 0, 0, 0, 0, 0, 0]
   = [0, 0, 0, 0, 0, 0, 0, 0, 0, 0, 0, 0, 0, 0, 65536, 0, 0, 0, 0, 0, 0, 0, 0, 0, 0, 0]"
  by (simp add: stats_info_def mk_info_def FLAG_NOZERO_def FLAG_ALWAYS_def seq_layout_def)

lemma limits_shard1:
  "apply_limits seq_layout 10 100
     [0, 0, 0, 0, 0, 0, 0, 0, 0, 0, 0, 0, 0, 0, 65536, 0, 0, 0, 0, 0, 0, 0, 0, 0, 0, 0]
   = [0, 0, 0, 0, 0, 0, 0, 0, 0, 0, 0, 0, 0, 10, 100, 0, 0, 0, 0, 0, 0, 0, 0, 0, 0, 0]"
  by (simp add: apply_limits_def seq_layout_def)

theorem lock_failure_skips_shard_witness:
  "should_flush seq_layout (flush_world\<lparr>stats_file := Some ''/c/0/stats''\<rparr>)
   \<and> (\<exists>w'. stats_flush seq_layout lock0_env (flush_world\<lparr>stats_file := Some ''/c/0/stats''\<rparr>) = Inr w'
        \<and> files w' = files (flush_world\<lparr>stats_file := Some ''/c/0/stats''\<rparr>))
   \<and> stats_set_sizes seq_layout lock0_env ''/c/0'' 7 9 shard0_world = Inr shard0_world
   \<and> files_after (stats_zero seq_layout lock0_env shard0_world) ''/c/0/stats''
       = Some (stats_text shard0_counters)
   \<and> files (limits_world (stats_set_limits seq_layout lock0_env 160 1600 shard0_world)) ''/c/0/stats''
       = Some (stats_text shard0_counters)
   \<and> (\<exists>w'. stats_zero seq_layout lock0_env shard0_world = Inr w'
        \<and> files w' ''/c/1/stats'' = Some (stats_text
            [0, 0, 0, 0, 0, 0, 0, 0, 0, 0, 0, 0, 0, 0, 65536, 0, 0, 0, 0, 0, 0, 0, 0, 0, 0, 0]))
   \<and> (\<exists>w'. stats_set_limits seq_layout lock0_env 160 1600 shard0_world = Inr (0, w')
        \<and> files w' ''/c/1/stats'' = Some (stats_text
            [0, 0, 0, 0, 0, 0, 0, 0, 0, 0, 0, 0, 0, 10, 100, 0, 0, 0, 0, 0, 0, 0, 0, 0, 0, 0]))"
proof -
  let ?w = "flush_world\<lparr>stats_file := Some ''/c/0/stats''\<rparr>"
  have c0: "should_flush seq_layout ?w"
    by (simp add: should_flush_def seq_layout_def flush_world_def upt_rec)
  note inst = lock_failure_skips_shard [where E = lock0_env and L = seq_layout and cd = "''/c''"
      and d = 0 and sf = "''/c/0/stats''" and dir = "''/c/0''" and maxfiles = 160 and maxsize = 1600
      and num_files = 7 and total_size = 9]
  have h1: "choose_stats_file lock0_env ?w = Some (''/c/0/stats'', ?w)
            \<and> \<not> lockfile_acquire lock0_env ''/c/0/stats'' (lock_staleness_limit lock0_env)"
    by (simp add: choose_stats_file_def lock0_env_facts)
  have h2: "\<not> lockfile_acquire lock0_env (''/c/0'' @ ''/stats'') (lock_staleness_limit lock0_env)"
    by (simp add: lock0_env_facts)
  have h3: "cache_dir lock0_env = Some ''/c'' \<and> (0::nat) < 16
        \<and> \<not> lockfile_acquire lock0_env (shard_file ''/c'' 0) (lock_staleness_limit lock0_env)"
    by (simp add: lock0_env_facts shard_file_c0)
  have h4: "\<forall>j < 16. (\<forall>i < STATS_END seq_layout. fprintf_ok lock0_env (tmp_name lock0_env (shard_file ''/c'' j)) i)
        \<and> fclose_fails_after lock0_env (tmp_name lock0_env (shard_file ''/c'' j)) = None"
    by (simp add: lock0_env_facts)
  have h5: "(\<forall>j < 16. (\<forall>i < STATS_END seq_layout. fprintf_ok lock0_env (tmp_name lock0_env (shard_file ''/c'' j)) i)
        \<and> fclose_fails_after lock0_env (tmp_name lock0_env (shard_file ''/c'' j)) = None)
            \<and> create_dir lock0_env ''/c'' = 0 \<and> (\<forall>j < 16. create_dir lock0_env (shard_dir ''/c'' j) = 0)
            \<and> (0::int) \<le> 160 \<and> (0::int) \<le> 1600"
    by (simp add: lock0_env_facts)
  have f0: "files shard0_world ''/c/0/stats'' = Some (stats_text shard0_counters)"
    by (simp add: shard0_world_def)
  have l1: "lockfile_acquire lock0_env (shard_file ''/c'' 1) (lock_staleness_limit lock0_env)
            \<and> fopen_ok lock0_env (tmp_name lock0_env (shard_file ''/c'' 1))"
    by (simp only: shard_file_c1) (simp add: lock0_env_facts)
  from inst [of ?w ?w] h1 have c1: "\<exists>w'. stats_flush seq_layout lock0_env ?w = Inr w' \<and> files w' = files ?w"
    by blast
  from inst [of shard0_world] h2 have c2: "stats_set_sizes seq_layout lock0_env ''/c/0'' 7 9 shard0_world = Inr shard0_world"
    by blast
  from inst [of shard0_world] h3 have
    c3: "files_after (stats_zero seq_layout lock0_env shard0_world) (shard_file ''/c'' 0)
          = files shard0_world (shard_file ''/c'' 0)"
    and c4: "files (limits_world (stats_set_limits seq_layout lock0_env 160 1600 shard0_world)) (shard_file ''/c'' 0)
          = files shard0_world (shard_file ''/c'' 0)"
    by blast+
  from inst [of shard0_world] h3 h4 obtain wz where
    z: "stats_zero seq_layout lock0_env shard0_world = Inr wz"
    and zf: "\<forall>j < 16. lockfile_acquire lock0_env (shard_file ''/c'' j) (lock_staleness_limit lock0_env)
                        \<and> fopen_ok lock0_env (tmp_name lock0_env (shard_file ''/c'' j))
              \<longrightarrow> files wz (shard_file ''/c'' j)
                  = Some (stats_text (zero_entries seq_layout stats_info
                      (stats_read seq_layout lock0_env shard0_world (shard_file ''/c'' j) (zero_counters seq_layout))))"
    by blast
  from inst [of shard0_world] h3 h5 obtain wl where
    l: "stats_set_limits seq_layout lock0_env 160 1600 shard0_world = Inr (0, wl)"
    and lf: "\<forall>j < 16. lockfile_acquire lock0_env (shard_file ''/c'' j) (lock_staleness_limit lock0_env)
                        \<and> fopen_ok lock0_env (tmp_name lock0_env (shard_file ''/c'' j))
              \<longrightarrow> files wl (shard_file ''/c'' j)
                  = Some (stats_text (apply_limits seq_layout (160 div 16) (1600 div 16)
                      (stats_read seq_layout lock0_env shard0_world (shard_file ''/c'' j) (zero_counters seq_layout))))"
    by blast
  have one: "(1::nat) < 16" by simp
  from zf [rule_format, OF one] l1 have c5: "files wz ''/c/1/stats'' = Some (stats_text
            [0, 0, 0, 0, 0, 0, 0, 0, 0, 0, 0, 0, 0, 0, 65536, 0, 0, 0, 0, 0, 0, 0, 0, 0, 0, 0])"
    by (simp only: shard_file_c1 read_shard1 zero_shard1)
  from lf [rule_format, OF one] l1 have c6: "files wl ''/c/1/stats'' = Some (stats_text
            [0, 0, 0, 0, 0, 0, 0, 0, 0, 0, 0, 0, 0, 10, 100, 0, 0, 0, 0, 0, 0, 0, 0, 0, 0, 0])"
    by (simp only: shard_file_c1 read_shard1) (simp add: limits_shard1)
  from c0 c1 c2 c3 c4 z c5 l c6 f0 show ?thesis
    by (simp add: shard_file_c0)
qed

section \<open>Failures while writing\<close>

text \<open>
  C6. The claim fails in two places. Where the temporary file cannot be opened,
  \<open>write_stats\<close> hands one line to \<open>cc_log\<close> and returns to its caller, and the
  process goes on. Where the write fails in \<open>fclose\<close>, as it does on a full disk,
  \<open>write_stats\<close> returns as well, without any diagnostic, and the temporary file, here
  empty, has been renamed over the stats file, which held the counters of shard 0.
\<close>

theorem write_stats_counterexample:
  "write_stats small_layout no_fopen_env ''/c/0/stats'' [7, 42, 4294967295] shard0_world
     = Inr (shard0_world\<lparr>cc_log := [''Failed to open /c/0/stats.tmp.host.1'']\<rparr>)
   \<and> files shard0_world ''/c/0/stats'' = Some (stats_text shard0_counters)
   \<and> write_stats small_layout fclose_fail_env ''/c/0/stats'' [7, 42, 4294967295] shard0_world
     = Inr (shard0_world\<lparr>files := ((files shard0_world)(''/c/0/stats'' \<mapsto> []))
                                     (''/c/0/stats.tmp.host.1'' := None)\<rparr>)"
proof -
  have a: "write_stats small_layout no_fopen_env ''/c/0/stats'' [7, 42, 4294967295] shard0_world
     = Inr (shard0_world\<lparr>cc_log := [''Failed to open /c/0/stats.tmp.host.1'']\<rparr>)"
    by (simp add: write_stats_def tmp_name_def no_fopen_env_def ok_env_def shard0_world_def)
  have b: "files shard0_world ''/c/0/stats'' = Some (stats_text shard0_counters)"
    by (simp add: shard0_world_def)
  have t: "tmp_name fclose_fail_env ''/c/0/stats'' = ''/c/0/stats.tmp.host.1''"
    by (simp add: tmp_name_def fclose_fail_env_def ok_env_def)
  have "fopen_ok fclose_fail_env (tmp_name fclose_fail_env ''/c/0/stats'')"
    "\<forall>i < STATS_END small_layout. fprintf_ok fclose_fail_env (tmp_name fclose_fail_env ''/c/0/stats'') i"
    "fclose_fails_after fclose_fail_env (tmp_name fclose_fail_env ''/c/0/stats'') = Some 0"
    "length [7, 42, 4294967295 :: counter] = STATS_END small_layout"
    by (simp_all add: fclose_fail_env_def ok_env_def small_layout_def)
  from write_stats_fclose_fail [OF this, of shard0_world] have
    "write_stats small_layout fclose_fail_env ''/c/0/stats'' [7, 42, 4294967295] shard0_world
     = Inr (shard0_world\<lparr>files := ((files shard0_world)(''/c/0/stats'' \<mapsto> []))
                                     (''/c/0/stats.tmp.host.1'' := None)\<rparr>)"
    by (simp add: t)
  with a b show ?thesis by blast
qed

text \<open>
  C6, amended. When the temporary file cannot be opened, \<open>write_stats\<close> logs
  \<open>Failed to open\<close> with the file's name and returns; the failure is not fatal. When
  an \<open>fprintf\<close> to the temporary file reports a failure, the failure is fatal, with
  the diagnostic \<open>Failed to write to\<close> and the file's name. In both cases the stats
  file at the target path is left as it was: the temporary file is not renamed over it.
\<close>

theorem write_stats_failures:
  "(\<not> fopen_ok E (tmp_name E path)
      \<longrightarrow> write_stats L E path counters w
            = Inr (w\<lparr>cc_log := cc_log w @ [''Failed to open '' @ tmp_name E path]\<rparr>))
   \<and> (fopen_ok E (tmp_name E path) \<and> \<not> (\<forall>i < STATS_END L. fprintf_ok E (tmp_name E path) i)
      \<longrightarrow> (\<exists>part. write_stats L E path counters w
            = Inl (Fatal (''Failed to write to '' @ tmp_name E path),
                   w\<lparr>files := (files w)(tmp_name E path \<mapsto> part)\<rparr>)))
   \<and> (\<not> (fopen_ok E (tmp_name E path) \<and> (\<forall>i < STATS_END L. fprintf_ok E (tmp_name E path) i))
      \<longrightarrow> files_after (write_stats L E path counters w) path = files w path)"
proof (intro conjI impI)
  assume "\<not> fopen_ok E (tmp_name E path)"
  then show "write_stats L E path counters w
            = Inr (w\<lparr>cc_log := cc_log w @ [''Failed to open '' @ tmp_name E path]\<rparr>)"
    by (rule write_stats_fopen_fail)
next
  assume "fopen_ok E (tmp_name E path) \<and> \<not> (\<forall>i < STATS_END L. fprintf_ok E (tmp_name E path) i)"
  then show "\<exists>part. write_stats L E path counters w
            = Inl (Fatal (''Failed to write to '' @ tmp_name E path),
                   w\<lparr>files := (files w)(tmp_name E path \<mapsto> part)\<rparr>)"
    using write_stats_fatal by blast
next
  assume a: "\<not> (fopen_ok E (tmp_name E path) \<and> (\<forall>i < STATS_END L. fprintf_ok E (tmp_name E path) i))"
  show "files_after (write_stats L E path counters w) path = files w path"
  proof (cases "fopen_ok E (tmp_name E path)")
    case False
    from write_stats_fopen_fail [OF this] show ?thesis
      by (simp add: files_after_def final_world_def)
  next
    case True
    with a have "\<not> (\<forall>i < STATS_END L. fprintf_ok E (tmp_name E path) i)" by simp
    from write_stats_fatal [OF True this, of counters w] show ?thesis
      using tmp_name_neq [of E path] by (auto simp: files_after_def final_world_def)
  qed
qed

theorem write_stats_failures_witness:
  "write_stats small_layout no_fopen_env ''/c/0/stats'' [7, 42, 4294967295] shard0_world
     = Inr (shard0_world\<lparr>cc_log := cc_log shard0_world
              @ [''Failed to open '' @ tmp_name no_fopen_env ''/c/0/stats'']\<rparr>)
   \<and> files_after (write_stats small_layout no_fopen_env ''/c/0/stats'' [7, 42, 4294967295] shard0_world)
       ''/c/0/stats'' = files shard0_world ''/c/0/stats''
   \<and> (\<exists>part. write_stats small_layout fprintf_fail_env ''/c/0/stats'' [7, 42, 4294967295] shard0_world
         = Inl (Fatal (''Failed to write to '' @ tmp_name fprintf_fail_env ''/c/0/stats''),
                shard0_world\<lparr>files := (files shard0_world)(tmp_name fprintf_fail_env ''/c/0/stats'' \<mapsto> part)\<rparr>))
   \<and> files_after (write_stats small_layout fprintf_fail_env ''/c/0/stats'' [7, 42, 4294967295] shard0_world)
       ''/c/0/stats'' = files shard0_world ''/c/0/stats''"
proof -
  have a: "\<not> fopen_ok no_fopen_env (tmp_name no_fopen_env ''/c/0/stats'')"
    by (simp add: no_fopen_env_def)
  have b: "fopen_ok fprintf_fail_env (tmp_name fprintf_fail_env ''/c/0/stats'')
           \<and> \<not> (\<forall>i < STATS_END small_layout. fprintf_ok fprintf_fail_env (tmp_name fprintf_fail_env ''/c/0/stats'') i)"
  proof -
    have "\<not> fprintf_ok fprintf_fail_env p 1" "(1::nat) < STATS_END small_layout" for p
      by (simp_all add: fprintf_fail_env_def small_layout_def)
    then show ?thesis by (auto simp: fprintf_fail_env_def ok_env_def)
  qed
  from a write_stats_failures [of no_fopen_env "''/c/0/stats''" small_layout "[7, 42, 4294967295]" shard0_world]
  have "write_stats small_layout no_fopen_env ''/c/0/stats'' [7, 42, 4294967295] shard0_world
     = Inr (shard0_world\<lparr>cc_log := cc_log shard0_world
              @ [''Failed to open '' @ tmp_name no_fopen_env ''/c/0/stats'']\<rparr>)"
    "files_after (write_stats small_layout no_fopen_env ''/c/0/stats'' [7, 42, 4294967295] shard0_world)
       ''/c/0/stats'' = files shard0_world ''/c/0/stats''"
    by blast+
  moreover
  from b write_stats_failures [of fprintf_fail_env "''/c/0/stats''" small_layout "[7, 42, 4294967295]" shard0_world]
  have "\<exists>part. write_stats small_layout fprintf_fail_env ''/c/0/stats'' [7, 42, 4294967295] shard0_world
         = Inl (Fatal (''Failed to write to '' @ tmp_name fprintf_fail_env ''/c/0/stats''),
                shard0_world\<lparr>files := (files shard0_world)(tmp_name fprintf_fail_env ''/c/0/stats'' \<mapsto> part)\<rparr>)"
    "files_after (write_stats small_layout fprintf_fail_env ''/c/0/stats'' [7, 42, 4294967295] shard0_world)
       ''/c/0/stats'' = files shard0_world ''/c/0/stats''"
    by blast+
  ultimately show ?thesis by blast
qed

section \<open>The default counters\<close>

text \<open>
  C8. Reading a stats file that does not exist, cannot be opened or cannot be read,
  into zeroed counters, gives the default counters: the max-size counter is the built-in
  default quota of a shard, \<open>DEFAULT_MAXSIZE / 16 = 65536\<close>, and every other counter
  is zero.
\<close>

theorem stats_read_default_vector:
  assumes "layout_ok L"
    and "files w path = None \<or> open_denied E path \<or> read_error E path"
    and "c = stats_read L E w path (zero_counters L)"
  shows "length c = STATS_END L
         \<and> c ! stat_index L STATS_MAXSIZE = of_nat (DEFAULT_MAXSIZE div 16)
         \<and> (of_nat (DEFAULT_MAXSIZE div 16) :: counter) = 65536
         \<and> (\<forall>i < STATS_END L. i \<noteq> stat_index L STATS_MAXSIZE \<longrightarrow> c ! i = 0)"
proof -
  have c: "c = stats_default L (zero_counters L)"
    using assms(2) by (auto simp: assms(3) stats_read_default)
  have i: "stat_index L STATS_MAXSIZE < STATS_END L" by (rule layout_ok_index [OF assms(1)])
  show ?thesis
    using i by (simp add: c stats_default_def zero_counters_def DEFAULT_MAXSIZE_def)
qed

theorem stats_read_default_vector_witness:
  "stats_read seq_layout ok_env shard0_world ''/c/1/stats'' (zero_counters seq_layout)
     ! stat_index seq_layout STATS_MAXSIZE = 65536
   \<and> stats_read seq_layout ok_env shard0_world ''/c/1/stats'' (zero_counters seq_layout)
     ! stat_index seq_layout STATS_NUMFILES = 0"
proof -
  have "files shard0_world ''/c/1/stats'' = None \<or> open_denied ok_env ''/c/1/stats''
        \<or> read_error ok_env ''/c/1/stats''"
    by (simp add: shard0_world_def)
  from stats_read_default_vector [OF layout_ok_seq this refl] show ?thesis
    by (simp add: seq_layout_def)
qed

section \<open>The summary over the top-level file and the shards\<close>

lemma update_add:
  assumes "length a = length b"
  shows "(map2 (+) a b)[i := (map2 (+) a b) ! i + v] = map2 (+) a (b[i := b ! i + (v :: counter)])"
proof (rule nth_equalityI)
  show "length ((map2 (+) a b)[i := (map2 (+) a b) ! i + v])
        = length (map2 (+) a (b[i := b ! i + v]))"
    by simp
next
  fix j assume "j < length ((map2 (+) a b)[i := (map2 (+) a b) ! i + v])"
  then show "(map2 (+) a b)[i := (map2 (+) a b) ! i + v] ! j = map2 (+) a (b[i := b ! i + v]) ! j"
    using assms by (cases "i = j") (simp_all add: add.assoc)
qed

lemma parse_loop_add:
  "length a = length b \<Longrightarrow> parse_loop (map2 (+) a b) p is = map2 (+) a (parse_loop b p is)"
proof (induction "is" arbitrary: a b p)
  case Nil
  show ?case by simp
next
  case (Cons i "is")
  obtain v p2 where st: "strtol p = (v, p2)" by (cases "strtol p")
  have len: "length a = length (b[i := b ! i + word_of_int v])" using Cons.prems by simp
  show ?case
    using Cons.IH [OF len] update_add [OF Cons.prems, of i "word_of_int v"]
    by (simp add: st Let_def)
qed

lemma stats_default_add:
  "length a = length b \<Longrightarrow> stats_default L (map2 (+) a b) = map2 (+) a (stats_default L b)"
  by (simp add: stats_default_def update_add)

lemma map2_zero: "length c = n \<Longrightarrow> map2 (+) c (replicate n (0 :: counter)) = c"
  by (auto simp: list_eq_iff_nth_eq)

lemma stats_read_add:
  assumes "length c = STATS_END L"
  shows "stats_read L E w path c = map2 (+) c (stats_read L E w path (zero_counters L))"
proof -
  have l: "length c = length (zero_counters L)" by (simp add: assms zero_counters_def)
  have c: "c = map2 (+) c (zero_counters L)" using map2_zero [OF assms] by (simp add: zero_counters_def)
  have "stats_read L E w path (map2 (+) c (zero_counters L))
        = map2 (+) c (stats_read L E w path (zero_counters L))"
    by (simp add: stats_read_def stats_read_fd_def parse_stats_def parse_loop_add [OF l]
        stats_default_add [OF l] split: option.splits prod.splits)
  with c show ?thesis by simp
qed

lemma summary_loop_shards:
  "summary_loop L E w cd (map int ds) c
   = foldl (\<lambda>c d. stats_read L E w (shard_file cd d) c) c ds"
  by (induction ds arbitrary: c) (simp_all add: Let_def)

lemma foldl_read_nth:
  assumes "length c = STATS_END L" and "i < STATS_END L"
  shows "foldl (\<lambda>c d. stats_read L E w (shard_file cd d) c) c ds ! i
         = c ! i + sum_list (map (\<lambda>d. stats_read L E w (shard_file cd d) (zero_counters L) ! i) ds)"
  using assms(1)
proof (induction ds arbitrary: c)
  case Nil
  show ?case by simp
next
  case (Cons d ds)
  let ?r = "stats_read L E w (shard_file cd d) (zero_counters L)"
  have lr: "length ?r = STATS_END L" by (simp add: stats_read_length zero_counters_length)
  have l: "length (stats_read L E w (shard_file cd d) c) = STATS_END L"
    by (simp add: stats_read_length Cons.prems)
  have "stats_read L E w (shard_file cd d) c ! i = c ! i + ?r ! i"
    using stats_read_add [OF Cons.prems, of E w "shard_file cd d"] lr Cons.prems assms(2)
    by simp
  with Cons.IH [OF l] show ?case by (simp add: add.assoc)
qed

lemma dirs_upto: "[- 1 .. 15] = (- 1) # map int [0 ..< 16]"
proof -
  have "[- 1 .. 15] = (- 1) # 0 # 1 # [2 .. (15::int)]"
    by (simp add: upto_rec1 [of "- 1"] upto_rec1 [of 0] upto_rec1 [of 1])
  then show ?thesis by (simp add: upt_rec)
qed

lemma summary_counters_nth:
  assumes "i < STATS_END L"
  shows "summary_counters L E w cd ! i
         = (if i = stat_index L STATS_MAXSIZE then 0
            else stats_read L E w (top_file cd) (zero_counters L) ! i)
           + shards_total L E w cd i"
proof -
  let ?top = "stats_read L E w (top_file cd) (zero_counters L)"
  have l: "length (?top[stat_index L STATS_MAXSIZE := 0]) = STATS_END L"
    by (simp add: stats_read_length zero_counters_length)
  have "summary_counters L E w cd
        = foldl (\<lambda>c d. stats_read L E w (shard_file cd d) c) (?top[stat_index L STATS_MAXSIZE := 0]) [0 ..< 16]"
    unfolding summary_counters_def dirs_upto
    by (simp only: summary_loop.simps Let_def summary_loop_shards) simp
  then show ?thesis
    using foldl_read_nth [OF l assms, of E w cd "[0 ..< 16]"] assms l
    by (simp add: shards_total_def nth_list_update)
qed

lemma top_file_c: "top_file ''/c'' = ''/c/stats''"
  by (simp add: top_file_def)

lemma read_top:
  "stats_read seq_layout ok_env top_world (top_file ''/c'') (zero_counters seq_layout)
   = shard0_counters"
proof -
  have f: "files top_world (top_file ''/c'') = Some (stats_text shard0_counters)"
    by (simp add: top_world_def top_file_c)
  have l: "length shard0_counters = 26" by (simp add: shard0_counters_def)
  then have ne: "shard0_counters \<noteq> []" by auto
  from stats_read_text [OF f _ _ ne _ fits_buf_seq, of ok_env] show ?thesis
    by (simp add: l stats_end_seq) (simp add: ok_env_def)
qed

lemma read_top_shard:
  "stats_read seq_layout ok_env top_world (shard_file ''/c'' d) (zero_counters seq_layout)
   = [0, 0, 0, 0, 0, 0, 0, 0, 0, 0, 0, 0, 0, 0, 65536, 0, 0, 0, 0, 0, 0, 0, 0, 0, 0, 0]"
proof -
  have "files top_world (shard_file ''/c'' d) = None"
    using shard_file_neq_top [of "''/c''" d] by (simp add: top_world_def top_file_c)
  then show ?thesis by (simp add: stats_read_default default_seq)
qed

lemma shards_total_top_world:
  "shards_total seq_layout ok_env top_world ''/c'' (stat_index seq_layout STATS_NUMFILES) = 0"
  "shards_total seq_layout ok_env top_world ''/c'' (stat_index seq_layout STATS_TOTALSIZE) = 0"
  "shards_total seq_layout ok_env top_world ''/c'' (stat_index seq_layout STATS_MAXFILES) = 0"
  "shards_total seq_layout ok_env top_world ''/c'' (stat_index seq_layout STATS_MAXSIZE) = 1048576"
  unfolding shards_total_def read_top_shard
  by (simp_all add: seq_layout_def upt_rec)

text \<open>
  C7. The claim fails: of the counters of the top-level file, \<open>stats_summary\<close> zeroes
  the max-size counter only. With a top-level file holding 5 files, 300 KiB and a
  max-files of 10, and no shard stats file at all, the totals are 5, 300 and 10, though
  the shards add up to 0 each time.
\<close>

theorem summary_counterexample:
  "summary_counters seq_layout ok_env top_world ''/c'' ! stat_index seq_layout STATS_NUMFILES = 5
   \<and> shards_total seq_layout ok_env top_world ''/c'' (stat_index seq_layout STATS_NUMFILES) = 0
   \<and> summary_counters seq_layout ok_env top_world ''/c'' ! stat_index seq_layout STATS_TOTALSIZE = 300
   \<and> shards_total seq_layout ok_env top_world ''/c'' (stat_index seq_layout STATS_TOTALSIZE) = 0
   \<and> summary_counters seq_layout ok_env top_world ''/c'' ! stat_index seq_layout STATS_MAXFILES = 10
   \<and> shards_total seq_layout ok_env top_world ''/c'' (stat_index seq_layout STATS_MAXFILES) = 0"
proof -
  have i: "stat_index seq_layout s < STATS_END seq_layout" for s
    by (rule layout_ok_index [OF layout_ok_seq])
  have "summary_counters seq_layout ok_env top_world ''/c'' ! stat_index seq_layout STATS_NUMFILES = 5"
    "summary_counters seq_layout ok_env top_world ''/c'' ! stat_index seq_layout STATS_TOTALSIZE = 300"
    "summary_counters seq_layout ok_env top_world ''/c'' ! stat_index seq_layout STATS_MAXFILES = 10"
    by (simp_all add: summary_counters_nth [OF i] shards_total_top_world read_top)
       (simp_all add: seq_layout_def shard0_counters_def)
  then show ?thesis by (simp add: shards_total_top_world)
qed

text \<open>
  C7, amended. During the summary's aggregation over the top-level file and the 16
  shard files, only the max-size counter read from the top-level file is zeroed before
  the shard values are added. Every other counter of the top-level file, its
  total-size, file-count and max-files counters among them, is summed with the shard
  values: each total is the top-level file's counter, or 0 for max-size, plus the sum
  over the shards.
\<close>

theorem summary_suppresses_max_size_only:
  assumes "i < STATS_END L"
    and "tc = stats_read L E w (top_file cd) (zero_counters L)"
  shows "summary_counters L E w cd ! i
         = (if i = stat_index L STATS_MAXSIZE then 0 else tc ! i) + shards_total L E w cd i"
  using summary_counters_nth [OF assms(1)] by (simp add: assms(2))

theorem summary_suppresses_max_size_only_witness:
  "summary_counters seq_layout ok_env top_world ''/c'' ! 14 = 1048576
   \<and> summary_counters seq_layout ok_env top_world ''/c'' ! 8 = 2"
proof -
  have a: "(14::nat) < STATS_END seq_layout" and b: "(8::nat) < STATS_END seq_layout"
    by (simp_all add: seq_layout_def)
  have s: "shards_total seq_layout ok_env top_world ''/c'' 14 = 1048576"
    "shards_total seq_layout ok_env top_world ''/c'' 8 = 0"
    unfolding shards_total_def read_top_shard by (simp_all add: upt_rec)
  from summary_suppresses_max_size_only [OF a refl, of ok_env top_world "''/c''"]
    summary_suppresses_max_size_only [OF b refl, of ok_env top_world "''/c''"]
  show ?thesis
    by (simp add: s read_top) (simp add: seq_layout_def shard0_counters_def)
qed

section \<open>Truncated stats files\<close>

lemma stats_read_fd_text:
  assumes "files w fd = Some (stats_text vs)" and "\<not> read_error E fd"
    and "vs \<noteq> []" and "length vs \<le> STATS_END L" and "fits_buf L"
  shows "stats_read_fd L E w fd (zero_counters L) = vs @ replicate (STATS_END L - length vs) 0"
proof -
  have "length (stats_text vs) \<le> 1023"
    using stats_text_length [of vs] assms(4,5) by (simp add: fits_buf_def)
  then have tk: "take 1023 (stats_text vs) = stats_text vs" by simp
  have ne: "stats_text vs \<noteq> []"
    using assms(3) by (cases vs) (simp_all add: stats_text_Cons)
  have tw: "takeWhile (\<lambda>c. c \<noteq> CHR 0x00) (stats_text vs) = stats_text vs"
    using stats_text_no_nul [of vs] by auto
  have "unparsable []" by (simp add: unparsable_def)
  from parse_stats_text [OF assms(4) this] show ?thesis
    using assms(1,2) ne by (simp add: stats_read_fd_def read_fd_def tk tw)
qed

text \<open>
  C4. The claim fails for \<open>k = 0\<close> where the text is read from a file: the first 0
  lines are the empty text, and \<open>stats_read_fd\<close> answers an empty read with
  \<open>stats_default\<close>, so the max-size counter is 65536, not 0.
\<close>

theorem read_truncated_counterexample:
  "first_lines 0 (stats_text shard0_counters) = []
   \<and> stats_read_fd seq_layout ok_env empty_file_world ''/c/0/stats'' (zero_counters seq_layout)
       = [0, 0, 0, 0, 0, 0, 0, 0, 0, 0, 0, 0, 0, 0, 65536, 0, 0, 0, 0, 0, 0, 0, 0, 0, 0, 0]"
proof -
  have "stats_read_fd seq_layout ok_env empty_file_world ''/c/0/stats'' (zero_counters seq_layout)
        = stats_default seq_layout (zero_counters seq_layout)"
    by (simp add: stats_read_fd_def read_fd_def empty_file_world_def)
  then show ?thesis by (simp add: default_seq)
qed

text \<open>
  C4, amended. For every counter array \<open>v\<close> of \<open>STATS_END\<close> counters and every \<open>k\<close> from 0 to
  \<open>STATS_END\<close>: \<open>parse_stats\<close> on the first \<open>k\<close> complete lines of the text written
  for \<open>v\<close> and a zeroed counter array gives the first \<open>k\<close> counters of \<open>v\<close> followed
  by zeros. \<open>parse_stats\<close> has no failure: where \<open>strtol\<close> converts nothing it stops,
  so the result is the same when the lines are followed by a text that does not start
  with a number. \<open>stats_read_fd\<close> hands a file of such lines to \<open>parse_stats\<close> as it
  is, with the same result, when the file has at least one line; an empty file is
  answered by \<open>stats_default\<close> before any parsing, which gives the default counters.
\<close>

theorem parse_truncated:
  assumes "length v = STATS_END L"
    and "write_loop E tmp v [0 ..< STATS_END L] [] = Inr text"
    and "k \<le> STATS_END L"
  shows "parse_stats L (zero_counters L) (first_lines k text)
           = take k v @ replicate (STATS_END L - k) 0
         \<and> (\<forall>g. unparsable g \<longrightarrow>
               parse_stats L (zero_counters L) (first_lines k text @ g)
                 = take k v @ replicate (STATS_END L - k) 0)
         \<and> (0 < k \<and> fits_buf L \<and> files w fd = Some (first_lines k text) \<and> \<not> read_error E' fd
              \<longrightarrow> stats_read_fd L E' w fd (zero_counters L)
                    = take k v @ replicate (STATS_END L - k) 0)
         \<and> (files w fd = Some (first_lines 0 text)
              \<longrightarrow> stats_read_fd L E' w fd (zero_counters L) = stats_default L (zero_counters L))"
proof -
  have ft: "first_lines k text = stats_text (take k v)"
    using write_loop_text [OF assms(1,2)] by (simp add: first_lines_text)
  have len: "length (take k v) = k" using assms(1,3) by simp
  have gen: "unparsable g \<Longrightarrow> parse_stats L (zero_counters L) (stats_text (take k v) @ g)
          = take k v @ replicate (STATS_END L - k) 0" for g
    using parse_stats_text [of "take k v" L g] len assms(3) by simp
  have "unparsable []" by (simp add: unparsable_def)
  from gen [OF this] have plain: "parse_stats L (zero_counters L) (first_lines k text)
           = take k v @ replicate (STATS_END L - k) 0"
    by (simp add: ft)
  have "stats_read_fd L E' w fd (zero_counters L) = take k v @ replicate (STATS_END L - k) 0"
    if "0 < k \<and> fits_buf L \<and> files w fd = Some (first_lines k text) \<and> \<not> read_error E' fd"
  proof -
    from that assms(1,3) have "take k v \<noteq> []" by auto
    with that stats_read_fd_text [of w fd "take k v" E' L] len assms(3) show ?thesis
      by (simp add: ft)
  qed
  moreover have "stats_read_fd L E' w fd (zero_counters L) = stats_default L (zero_counters L)"
    if "files w fd = Some (first_lines 0 text)"
    using that by (simp add: stats_read_fd_def read_fd_def)
  ultimately show ?thesis using plain gen by (simp add: ft)
qed

theorem parse_truncated_witness:
  "parse_stats small_layout (zero_counters small_layout) ''7\<newline>42\<newline>'' = [7, 42, 0]
   \<and> parse_stats small_layout (zero_counters small_layout) ''7\<newline>42\<newline>x1\<newline>'' = [7, 42, 0]
   \<and> parse_stats small_layout (zero_counters small_layout) ''7\<newline>42\<newline>-x'' = [7, 42, 0]
   \<and> parse_stats small_layout (zero_counters small_layout) [] = [0, 0, 0]
   \<and> stats_read_fd small_layout ok_env two_line_world ''f'' (zero_counters small_layout)
       = [7, 42, 0]
   \<and> stats_read_fd seq_layout ok_env empty_file_world ''/c/0/stats'' (zero_counters seq_layout)
       = stats_default seq_layout (zero_counters seq_layout)"
proof -
  let ?w = "two_line_world"
  have len: "length [7, 42, 4294967295 :: counter] = STATS_END small_layout"
    by (simp add: small_layout_def)
  have wr: "write_loop ok_env ''t'' [7, 42, 4294967295] [0 ..< STATS_END small_layout] []
            = Inr ''7\<newline>42\<newline>4294967295\<newline>''"
    by (simp add: small_layout_def ok_env_def upt_rec stats_line_def dec.simps digit_char_def)
  have k2: "(2::nat) \<le> STATS_END small_layout" and k0: "(0::nat) \<le> STATS_END small_layout"
    by (simp_all add: small_layout_def)
  have g: "unparsable ''x1\<newline>''"
    by (simp add: unparsable_def isspace_def isdigit_def)
  have f2: "first_lines 2 ''7\<newline>42\<newline>4294967295\<newline>'' = ''7\<newline>42\<newline>''"
    by (simp add: numeral_2_eq_2)
  have fd: "0 < (2::nat) \<and> fits_buf small_layout
            \<and> files ?w ''f'' = Some (first_lines 2 ''7\<newline>42\<newline>4294967295\<newline>'')
            \<and> \<not> read_error ok_env ''f''"
    by (simp add: f2 fits_buf_def small_layout_def ok_env_def two_line_world_def)
  have len': "length shard0_counters = STATS_END seq_layout"
    by (simp add: shard0_counters_def seq_layout_def)
  have wr': "write_loop ok_env ''t'' shard0_counters [0 ..< STATS_END seq_layout] []
             = Inr (stats_text shard0_counters)"
    using write_loop_ok [of "[0 ..< STATS_END seq_layout]" ok_env "''t''" shard0_counters "[]"]
      text_of_indices [OF len'] by (simp add: ok_env_def)
  have e: "files empty_file_world ''/c/0/stats'' = Some (first_lines 0 (stats_text shard0_counters))"
    by (simp add: empty_file_world_def)
  have k0': "(0::nat) \<le> STATS_END seq_layout" by simp
  from parse_truncated [OF len' wr' k0', of empty_file_world "''/c/0/stats''" ok_env] e
  have last: "stats_read_fd seq_layout ok_env empty_file_world ''/c/0/stats'' (zero_counters seq_layout)
       = stats_default seq_layout (zero_counters seq_layout)"
    by blast
  from parse_truncated [OF len wr k2, of ?w "''f''" ok_env] fd g parse_truncated [OF len wr k0]
  have "parse_stats small_layout (zero_counters small_layout) ''7\<newline>42\<newline>'' = [7, 42, 0]
   \<and> parse_stats small_layout (zero_counters small_layout) ''7\<newline>42\<newline>x1\<newline>'' = [7, 42, 0]
   \<and> parse_stats small_layout (zero_counters small_layout) [] = [0, 0, 0]
   \<and> stats_read_fd small_layout ok_env two_line_world ''f'' (zero_counters small_layout)
       = [7, 42, 0]"
    by (simp add: f2) (simp add: small_layout_def numeral_3_eq_3)
  moreover have "parse_stats small_layout (zero_counters small_layout) ''7\<newline>42\<newline>-x'' = [7, 42, 0]"
  proof -
    have g2: "unparsable ''-x''"
      by (simp add: unparsable_def isspace_def isdigit_def)
    from parse_truncated [OF len wr k2, of ?w "''f''" ok_env]
    have "\<forall>g. unparsable g \<longrightarrow>
            parse_stats small_layout (zero_counters small_layout)
              (first_lines 2 ''7\<newline>42\<newline>4294967295\<newline>'' @ g)
            = take 2 [7, 42, 4294967295] @ replicate (STATS_END small_layout - 2) 0"
      by blast
    from this [rule_format, OF g2] show ?thesis
      by (simp add: f2) (simp add: small_layout_def numeral_3_eq_3)
  qed
  ultimately show ?thesis using last by blast
qed

end
